theory Spec2Isabelle
  imports Main
begin

section \<open>JavaScript values\<close>

text \<open>
  A JavaScript string is modelled as a \<^typ>\<open>string\<close>: a list of code units, each below 256.
  An optional value (\<open>string | undefined\<close>) is a \<^typ>\<open>string option\<close>, \<open>None\<close> being
  \<open>undefined\<close>. The raw main config is an arbitrary value (\<open>main: any\<close>), so it is modelled
  by a datatype of JavaScript values.
\<close>

datatype jsval =
    Undefined
  | Null
  | JBool bool
  | JNum int
  | JStr string
  | JArr "jsval list"
  | JObj "(string \<times> jsval) list"

datatype error =
    ConfigDirError
  | TypeError
  | External string

text \<open>Truthiness of a \<open>string | undefined\<close>: \<open>undefined\<close> and \<open>""\<close> are falsy.\<close>

fun truthy :: "string option \<Rightarrow> bool" where
  "truthy None = False"
| "truthy (Some s) = (s \<noteq> [])"

text \<open>\<open>a || b\<close> on optional strings.\<close>

definition js_or :: "string option \<Rightarrow> string option \<Rightarrow> string option" where
  "js_or a b = (if truthy a then a else b)"

text \<open>Truthiness of an arbitrary value (\<open>!!v\<close>); \<open>NaN\<close> is not modelled.\<close>

fun to_boolean :: "jsval \<Rightarrow> bool" where
  "to_boolean Undefined = False"
| "to_boolean Null = False"
| "to_boolean (JBool b) = b"
| "to_boolean (JNum n) = (n \<noteq> 0)"
| "to_boolean (JStr s) = (s \<noteq> [])"
| "to_boolean (JArr xs) = True"
| "to_boolean (JObj fs) = True"

section \<open>Regular expressions\<close>

text \<open>
  The fragment of JavaScript regular expressions that the two patterns of the source use,
  with the backtracking order of \<open>RegExp.prototype.exec\<close>: a matcher returns every way to
  go on, the preferred one first. \<open>Opt\<close> and \<open>Plus\<close> are greedy. \<open>Plus\<close> repeats one
  character class. \<open>Grp i\<close> is the capturing group number \<open>i\<close>.
\<close>

datatype re =
    Bol
  | Eol
  | Cls "char \<Rightarrow> bool"
  | Seq re re
  | Opt re
  | Plus "char \<Rightarrow> bool"
  | Grp nat re

record mstate =
  pos :: nat
  rest :: string
  caps :: "nat \<Rightarrow> string option"

fun plus_runs :: "(char \<Rightarrow> bool) \<Rightarrow> nat \<Rightarrow> string \<Rightarrow> (nat \<times> string) list" where
  "plus_runs p n [] = []"
| "plus_runs p n (c # cs) = (if p c then plus_runs p (Suc n) cs @ [(Suc n, cs)] else [])"

fun rmatch :: "re \<Rightarrow> mstate \<Rightarrow> mstate list" where
  "rmatch Bol st = (if pos st = 0 then [st] else [])"
| "rmatch Eol st = (if rest st = [] then [st] else [])"
| "rmatch (Cls p) st =
     (case rest st of
        [] \<Rightarrow> []
      | c # cs \<Rightarrow> if p c then [st\<lparr>pos := Suc (pos st), rest := cs\<rparr>] else [])"
| "rmatch (Seq a b) st = concat (map (rmatch b) (rmatch a st))"
| "rmatch (Opt a) st = rmatch a st @ [st]"
| "rmatch (Plus p) st =
     map (\<lambda>(n, cs). st\<lparr>pos := n, rest := cs\<rparr>) (plus_runs p (pos st) (rest st))"
| "rmatch (Grp i a) st =
     map (\<lambda>st'. st'\<lparr>caps := (caps st')(i \<mapsto> take (pos st' - pos st) (rest st))\<rparr>)
       (rmatch a st)"

text \<open>
  \<open>exec\<close> without the \<open>g\<close> and \<open>y\<close> flags tries every start position from the left and
  returns the captures of the first match.
\<close>

fun exec_from :: "re \<Rightarrow> nat \<Rightarrow> string \<Rightarrow> (nat \<Rightarrow> string option) option" where
  "exec_from r i [] =
     (case rmatch r \<lparr>pos = i, rest = [], caps = Map.empty\<rparr> of
        st # _ \<Rightarrow> Some (caps st)
      | [] \<Rightarrow> None)"
| "exec_from r i (c # cs) =
     (case rmatch r \<lparr>pos = i, rest = c # cs, caps = Map.empty\<rparr> of
        st # _ \<Rightarrow> Some (caps st)
      | [] \<Rightarrow> exec_from r (Suc i) cs)"

definition exec :: "re \<Rightarrow> string \<Rightarrow> (nat \<Rightarrow> string option) option" where
  "exec r s = exec_from r 0 s"

text \<open>
  \<open>.\<close> matches every code unit but a line terminator. Of the four line terminators, U+2028
  and U+2029 lie outside the code units modelled here.
\<close>

definition isLineTerminator :: "char \<Rightarrow> bool" where
  "isLineTerminator c = (c = CHR 0x0A \<or> c = CHR 0x0D)"

definition dot :: "char \<Rightarrow> bool" where
  "dot c = (\<not> isLineTerminator c)"

definition digit :: "char \<Rightarrow> bool" where
  "digit c = (c \<in> set ''0123456789'')"

section \<open>getVersionSpecifier\<close>

text \<open>
  The pattern of the source, \<^verbatim>\<open>/^(@?[^@]+)(?:@(.+))?$/\<close> with the bounds \<open>{0,1}\<close> in the
  place of the first \<open>?\<close>, which mean the same.
\<close>

definition addon_re :: re where
  "addon_re =
     Seq Bol
       (Seq (Grp 1 (Seq (Opt (Cls (\<lambda>c. c = CHR ''@''))) (Plus (\<lambda>c. c \<noteq> CHR ''@''))))
         (Seq (Opt (Seq (Cls (\<lambda>c. c = CHR ''@'')) (Grp 2 (Plus dot)))) Eol))"

text \<open>
  \<open>groups[1]\<close> is read with \<open>the\<close>: group 1 takes part in every match of the pattern
  (lemma \<open>exec_addon_re_group1\<close> below).
\<close>

definition getVersionSpecifier :: "string \<Rightarrow> string \<times> string option" where
  "getVersionSpecifier addon =
     (case exec addon_re addon of
        Some groups \<Rightarrow> (the (groups 1), groups 2)
      | None \<Rightarrow> (addon, None))"


text \<open>
  Names for parts of the pattern, used to reason about it: the code unit class \<open>[^@]\<close>, the
  length of the scope separator that group 1 may start with, and the part of the pattern
  after group 1, \<^verbatim>\<open>(?:@(.+))?$\<close>.
\<close>

definition not_at :: "char \<Rightarrow> bool" where
  "not_at c = (c \<noteq> CHR ''@'')"

definition scope_len :: "string \<Rightarrow> nat" where
  "scope_len s = (case s of [] \<Rightarrow> 0 | c # _ \<Rightarrow> if c = CHR ''@'' then 1 else 0)"

definition version_tail :: re where
  "version_tail = Seq (Opt (Seq (Cls (\<lambda>c. c = CHR ''@'')) (Grp 2 (Plus dot)))) Eol"

section \<open>checkInstalled\<close>

text \<open>
  Reading a property named \<open>addons\<close> or \<open>name\<close> of a value: a \<open>TypeError\<close> on \<open>undefined\<close>
  and \<open>null\<close>, the field of an object (\<open>undefined\<close> when it has none), and \<open>undefined\<close> on
  every other value, none of whose prototypes defines a property of these names. The first
  binding of a key in the list of fields is the one the object has.
\<close>

fun get_prop :: "jsval \<Rightarrow> string \<Rightarrow> error + jsval" where
  "get_prop Undefined k = Inl TypeError"
| "get_prop Null k = Inl TypeError"
| "get_prop (JObj fs) k = Inr (case map_of fs k of Some v \<Rightarrow> v | None \<Rightarrow> Undefined)"
| "get_prop v k = Inr Undefined"

text \<open>\<open>s.endsWith(t)\<close>\<close>

definition endsWith :: "string \<Rightarrow> string \<Rightarrow> bool" where
  "endsWith s t = (length t \<le> length s \<and> drop (length s - length t) s = t)"

text \<open>
  The callback of \<open>find\<close>:
  \<^verbatim>\<open>const name = typeof entry === 'string' ? entry : entry.name; return name?.endsWith(addonName);\<close>
  The result is the truthiness of what the callback returns. Calling \<open>endsWith\<close> on a name
  that is neither nullish nor a string is a \<open>TypeError\<close>, as no such value has that method.
\<close>

definition entry_matches :: "string \<Rightarrow> jsval \<Rightarrow> error + bool" where
  "entry_matches addonName entry =
     (case (case entry of JStr s \<Rightarrow> Inr (JStr s) | _ \<Rightarrow> get_prop entry ''name'') of
        Inl e \<Rightarrow> Inl e
      | Inr name \<Rightarrow>
          (case name of
             Undefined \<Rightarrow> Inr False
           | Null \<Rightarrow> Inr False
           | JStr s \<Rightarrow> Inr (endsWith s addonName)
           | _ \<Rightarrow> Inl TypeError))"

text \<open>\<open>Array.prototype.find\<close> with that callback: the first entry it accepts, else \<open>undefined\<close>.\<close>

fun find_entry :: "string \<Rightarrow> jsval list \<Rightarrow> error + jsval" where
  "find_entry addonName [] = Inr Undefined"
| "find_entry addonName (entry # entries) =
     (case entry_matches addonName entry of
        Inl e \<Rightarrow> Inl e
      | Inr True \<Rightarrow> Inr entry
      | Inr False \<Rightarrow> find_entry addonName entries)"

text \<open>
  \<^verbatim>\<open>const existingAddon = main.addons?.find(...); return !!existingAddon;\<close>
  \<open>?.\<close> gives \<open>undefined\<close> when \<open>main.addons\<close> is nullish; a value that is not an array has no
  \<open>find\<close> to call.
\<close>

definition checkInstalled :: "string \<Rightarrow> jsval \<Rightarrow> error + bool" where
  "checkInstalled addonName main =
     (case get_prop main ''addons'' of
        Inl e \<Rightarrow> Inl e
      | Inr addons \<Rightarrow>
          (case addons of
             Undefined \<Rightarrow> Inr False
           | Null \<Rightarrow> Inr False
           | JArr entries \<Rightarrow>
               (case find_entry addonName entries of
                  Inl e \<Rightarrow> Inl e
                | Inr existingAddon \<Rightarrow> Inr (to_boolean existingAddon))
           | _ \<Rightarrow> Inl TypeError))"

section \<open>The collaborators of add\<close>

text \<open>
  \<open>add\<close> calls the package manager, the config reader and writer, the post-install hook,
  the version table and the \<open>semver\<close> and \<open>path\<close> libraries. None of them is part of the
  sources at hand, so each is a parameter of the model: what a call returns, or the message
  of the exception it throws (\<open>Inl\<close>, or \<open>Some\<close> for a call that returns nothing).
\<close>

type_synonym failure = string

record jsPackageManager =
  pm_type :: string
  retrievePackageJson :: "failure + jsval"
  latestVersion :: "string \<Rightarrow> failure + string"
  addDependencies :: "bool \<Rightarrow> string list \<Rightarrow> failure option"

text \<open>
  Modelled from the spec: the config handle of \<open>readConfig\<close> is not part of the sources. It is
  the file that was read and the edits made to it since; \<open>appendValueToArray(path, value)\<close>
  adds one edit, and \<open>writeConfig\<close> is given the handle.
\<close>

record configFile =
  fileName :: string
  edits :: "(string list \<times> string) list"

definition appendValueToArray :: "string list \<Rightarrow> string \<Rightarrow> configFile \<Rightarrow> configFile" where
  "appendValueToArray path v main = main\<lparr>edits := edits main @ [(path, v)]\<rparr>"

record collaborators =
  getPackageManager :: "string option \<Rightarrow> jsPackageManager"
  getStorybookInfo :: "jsval \<Rightarrow> string option \<Rightarrow> failure + (string option \<times> string option)"
  cwd :: string
  isAbsolute :: "string \<Rightarrow> bool"
  join :: "string \<Rightarrow> string \<Rightarrow> string"
  serverRequire :: "string \<Rightarrow> failure + jsval"
  readConfig :: "string \<Rightarrow> failure + configFile"
  writeConfig :: "configFile \<Rightarrow> failure option"
  getCoercedStorybookVersion :: "jsPackageManager \<Rightarrow> failure + string option"
  versions :: "(string \<times> string) list"
  SemVer_valid :: "string \<Rightarrow> string option"
  postinstallAddon :: "string \<Rightarrow> string \<Rightarrow> string \<Rightarrow> failure option"

record cliOptions =
  cli_packageManager :: "string option"
  cli_configDir :: "string option"
  cli_skipPostinstall :: bool

text \<open>
  What an invocation does to the outside, in order: the logger's calls and the calls that
  install, edit, write and run the post-install hook. The messages are
  \<^item> \<open>UnableToFindMain\<close>: "Unable to find Storybook main.js config";
  \<^item> \<open>AlreadyPresent addonName mainConfig\<close>: "The Storybook Addon "..." is already present
    in ...; Its configuration will be skipped.";
  \<^item> \<open>Verifying addonName\<close>: "Verifying ...";
  \<^item> \<open>VersionMismatch addonName\<close>: "The version of ... you are installing is not the same as
    the version of Storybook you are using. This may lead to unexpected behavior.";
  \<^item> \<open>Installing addonWithVersion\<close>: "Installing ...";
  \<^item> \<open>Adding addon mainConfig\<close>: "Adding '...' to the addons field in ...".
\<close>

datatype message =
    UnableToFindMain
  | AlreadyPresent string string
  | Verifying string
  | VersionMismatch string
  | Installing string
  | Adding string string

datatype level = LError | LLog | LWarn

datatype event =
    Log level message
  | AddDependencies bool "string list"
  | AppendValueToArray "string list" string
  | WriteConfig configFile
  | PostinstallAddon string string string

datatype outcome = Returned | Threw error

type_synonym run = "event list \<times> outcome"

text \<open>The events of a statement, then the run of the statements after it.\<close>

fun emit :: "event list \<Rightarrow> run \<Rightarrow> run" where
  "emit es (tr, out) = (es @ tr, out)"

section \<open>add\<close>

text \<open>
  \<^verbatim>\<open>const absoluteConfigDir = isAbsolute(configDir) ? configDir : join(process.cwd(), configDir);\<close>
  \<^verbatim>\<open>return serverRequire(join(absoluteConfigDir, 'main')) ?? {};\<close>
\<close>

definition requireMain :: "collaborators \<Rightarrow> string \<Rightarrow> failure + jsval" where
  "requireMain E configDir =
     (let absoluteConfigDir = (if isAbsolute E configDir then configDir else join E (cwd E) configDir);
          mainFile = join E absoluteConfigDir ''main''
      in case serverRequire E mainFile of
           Inl x \<Rightarrow> Inl x
         | Inr Undefined \<Rightarrow> Inr (JObj [])
         | Inr Null \<Rightarrow> Inr (JObj [])
         | Inr v \<Rightarrow> Inr v)"

text \<open>\<open>Object.hasOwn(versions, addonName)\<close>\<close>

definition isCoreAddon :: "collaborators \<Rightarrow> string \<Rightarrow> bool" where
  "isCoreAddon E addonName = (addonName \<in> set (map fst (versions E)))"

text \<open>The pattern \<^verbatim>\<open>/^\d+$/\<close>.\<close>

definition digits_re :: re where
  "digits_re = Seq Bol (Seq (Plus digit) Eol)"

text \<open>\<^verbatim>\<open>SemVer.valid(version) || version.match(/^\d+$/)\<close>, as a truth value.\<close>

definition isValidVersion :: "collaborators \<Rightarrow> string \<Rightarrow> bool" where
  "isValidVersion E version = (truthy (SemVer_valid E version) \<or> exec digits_re version \<noteq> None)"

text \<open>Line 92: \<^verbatim>\<open>userSpecifiedConfigDir || inferredConfigDir || '.storybook'\<close>.\<close>

definition resolveConfigDir :: "string option \<Rightarrow> string option \<Rightarrow> string option" where
  "resolveConfigDir userSpecifiedConfigDir inferredConfigDir =
     js_or (js_or userSpecifiedConfigDir inferredConfigDir) (Some ''.storybook'')"

text \<open>
  Lines 117 to 124, the resolved version:
  \<^verbatim>\<open>let version = inputVersion;\<close>
  \<^verbatim>\<open>if (!version && isCoreAddon(addonName) && storybookVersion) version = storybookVersion;\<close>
  \<^verbatim>\<open>if (!version) version = await packageManager.latestVersion(addonName);\<close>
\<close>

definition resolveVersion ::
  "collaborators \<Rightarrow> jsPackageManager \<Rightarrow> string \<Rightarrow> string option \<Rightarrow> string option \<Rightarrow> failure + string"
where
  "resolveVersion E packageManager addonName inputVersion storybookVersion =
     (let version = inputVersion;
          version = (if \<not> truthy version \<and> isCoreAddon E addonName \<and> truthy storybookVersion
                     then storybookVersion else version)
      in case version of
           None \<Rightarrow> latestVersion packageManager addonName
         | Some v \<Rightarrow> if v = [] then latestVersion packageManager addonName else Inr v)"

text \<open>Lines 132 to 134, the package spec that is installed.\<close>

definition addonWithVersion :: "collaborators \<Rightarrow> string \<Rightarrow> string \<Rightarrow> string" where
  "addonWithVersion E addonName version =
     (if isValidVersion E version then addonName @ ''@^'' @ version
      else addonName @ ''@'' @ version)"

text \<open>
  Lines 112 to 146: what \<open>add\<close> does once the main config is found and the addon is not in
  it yet.
\<close>

definition install ::
  "collaborators \<Rightarrow> jsPackageManager \<Rightarrow> string \<Rightarrow> string \<Rightarrow> string option \<Rightarrow> string
     \<Rightarrow> string \<Rightarrow> bool \<Rightarrow> run"
where
  "install E packageManager addon addonName inputVersion mainConfig configDir skipPostinstall =
     (case readConfig E mainConfig of
        Inl x \<Rightarrow> ([], Threw (External x))
      | Inr main \<Rightarrow>
     emit [Log LLog (Verifying addonName)]
     (case getCoercedStorybookVersion E packageManager of
        Inl x \<Rightarrow> ([], Threw (External x))
      | Inr storybookVersion \<Rightarrow>
     (case resolveVersion E packageManager addonName inputVersion storybookVersion of
        Inl x \<Rightarrow> ([], Threw (External x))
      | Inr version \<Rightarrow>
     emit (if isCoreAddon E addonName \<and> Some version \<noteq> storybookVersion
           then [Log LWarn (VersionMismatch addonName)] else [])
     (emit [Log LLog (Installing (addonWithVersion E addonName version)),
            AddDependencies True [addonWithVersion E addonName version]]
     (case addDependencies packageManager True [addonWithVersion E addonName version] of
        Some x \<Rightarrow> ([], Threw (External x))
      | None \<Rightarrow>
     emit [Log LLog (Adding addon mainConfig),
           AppendValueToArray [''addons''] addonName,
           WriteConfig (appendValueToArray [''addons''] addonName main)]
     (case writeConfig E (appendValueToArray [''addons''] addonName main) of
        Some x \<Rightarrow> ([], Threw (External x))
      | None \<Rightarrow>
     (if \<not> skipPostinstall \<and> isCoreAddon E addonName
      then emit [PostinstallAddon addonName (pm_type packageManager) configDir]
             (case postinstallAddon E addonName (pm_type packageManager) configDir of
                Some x \<Rightarrow> ([], Threw (External x))
              | None \<Rightarrow> ([], Returned))
      else ([], Returned))))))))"

text \<open>Lines 84 to 110, then \<open>install\<close>.\<close>

definition add :: "collaborators \<Rightarrow> string \<Rightarrow> cliOptions \<Rightarrow> run" where
  "add E addon opts =
     (case getVersionSpecifier addon of (addonName, inputVersion) \<Rightarrow>
     (let packageManager = getPackageManager E (cli_packageManager opts);
          userSpecifiedConfigDir = cli_configDir opts
      in
     (case retrievePackageJson packageManager of
        Inl x \<Rightarrow> ([], Threw (External x))
      | Inr packageJson \<Rightarrow>
     (case getStorybookInfo E packageJson userSpecifiedConfigDir of
        Inl x \<Rightarrow> ([], Threw (External x))
      | Inr (mainConfig, inferredConfigDir) \<Rightarrow>
     (case resolveConfigDir userSpecifiedConfigDir inferredConfigDir of
        None \<Rightarrow> ([], Threw ConfigDirError)
      | Some configDir \<Rightarrow>
     (case (if truthy mainConfig then mainConfig else None) of
        None \<Rightarrow> ([Log LError UnableToFindMain], Returned)
      | Some mainConfig \<Rightarrow>
     (case requireMain E configDir of
        Inl x \<Rightarrow> ([], Threw (External x))
      | Inr main \<Rightarrow>
     (case checkInstalled addonName main of
        Inl e \<Rightarrow> ([], Threw e)
      | Inr True \<Rightarrow> ([Log LError (AlreadyPresent addonName mainConfig)], Returned)
      | Inr False \<Rightarrow>
          install E packageManager addon addonName inputVersion mainConfig configDir
            (cli_skipPostinstall opts)))))))))"

text \<open>The kinds of event that the statements about \<open>add\<close> tell apart.\<close>

fun is_install :: "event \<Rightarrow> bool" where
  "is_install (AddDependencies dev specs) = True"
| "is_install e = False"

fun is_config_write :: "event \<Rightarrow> bool" where
  "is_config_write (AppendValueToArray path v) = True"
| "is_config_write (WriteConfig main) = True"
| "is_config_write e = False"

fun is_postinstall :: "event \<Rightarrow> bool" where
  "is_postinstall (PostinstallAddon addonName t configDir) = True"
| "is_postinstall e = False"

text \<open>
  The entries of \<open>addons\<close> that the scan of \<open>checkInstalled\<close> passes without an exception: not
  \<open>undefined\<close> or \<open>null\<close>, and not an object whose \<open>name\<close> is something else than a string,
  \<open>undefined\<close> or \<open>null\<close>.
\<close>

fun scannable :: "jsval \<Rightarrow> bool" where
  "scannable Undefined = False"
| "scannable Null = False"
| "scannable (JObj fs) =
     (case map_of fs ''name'' of
        None \<Rightarrow> True
      | Some Undefined \<Rightarrow> True
      | Some Null \<Rightarrow> True
      | Some (JStr s) \<Rightarrow> True
      | Some v \<Rightarrow> False)"
| "scannable v = True"

text \<open>An entry, a plain string or an object with a name, that equals or ends with the name.\<close>

fun names_addon :: "string \<Rightarrow> jsval \<Rightarrow> bool" where
  "names_addon addonName (JStr s) = endsWith s addonName"
| "names_addon addonName (JObj fs) =
     (case map_of fs ''name'' of Some (JStr s) \<Rightarrow> endsWith s addonName | _ \<Rightarrow> False)"
| "names_addon addonName v = False"

section \<open>A project to run add on\<close>

text \<open>
  A project whose main config lists one addon, with a package manager whose calls succeed and
  no config directory given or inferred. \<open>example_valid\<close> stands for \<open>SemVer.valid\<close> on the
  strings that the examples pass to it: the four listed are valid semantic versions, which
  \<open>SemVer.valid\<close> returns as they are, and the others (\<open>next\<close>, \<open>7\<close>) are not.
\<close>

definition example_valid :: "string \<Rightarrow> string option" where
  "example_valid v = (if v \<in> set [''7.0.1'', ''7.0.0'', ''1.2.3'', ''2.1.0''] then Some v else None)"

definition example_pm :: jsPackageManager where
  "example_pm =
     \<lparr>pm_type = ''npm'',
      retrievePackageJson = Inr (JObj []),
      latestVersion = (\<lambda>name. Inr ''2.1.0''),
      addDependencies = (\<lambda>dev specs. None)\<rparr>"

definition example_project :: collaborators where
  "example_project =
     \<lparr>getPackageManager = (\<lambda>force. example_pm),
      getStorybookInfo = (\<lambda>packageJson configDir. Inr (Some ''.storybook/main.ts'', None)),
      cwd = ''/project'',
      isAbsolute = (\<lambda>path. take 1 path = ''/''),
      join = (\<lambda>a b. a @ ''/'' @ b),
      serverRequire = (\<lambda>file. Inr (JObj [(''addons'', JArr [JStr ''@storybook/addon-essentials''])])),
      readConfig = (\<lambda>file. Inr \<lparr>fileName = file, edits = []\<rparr>),
      writeConfig = (\<lambda>main. None),
      getCoercedStorybookVersion = (\<lambda>packageManager. Inr (Some ''7.0.1'')),
      versions = [(''@storybook/addon-docs'', ''7.0.1''), (''@storybook/addon-essentials'', ''7.0.1'')],
      SemVer_valid = example_valid,
      postinstallAddon = (\<lambda>addonName t configDir. None)\<rparr>"

definition example_options :: cliOptions where
  "example_options =
     \<lparr>cli_packageManager = None, cli_configDir = None, cli_skipPostinstall = False\<rparr>"

section \<open>viteFinal\<close>

text \<open>
  A plugin is known by its name. The Vite config is the plugin list (\<open>None\<close> when the config
  has none), the aliases of \<open>resolve.alias\<close> in their object form, the other fields of
  \<open>resolve\<close> and the other fields of the config.
\<close>

datatype plugin = Plugin (plugin_name: string)

record viteConfig =
  plugins :: "plugin list option"
  resolve_alias :: "(string \<times> string) list"
  resolve_rest :: "(string \<times> jsval) list"
  other_fields :: "(string \<times> jsval) list"

text \<open>
  Modelled from the spec: \<open>hasVitePlugins\<close> of the Vite builder is not part of the sources. It
  is the name-based membership test of the spec: some plugin of the list has one of the names.
\<close>

definition hasVitePlugins :: "plugin list \<Rightarrow> string list \<Rightarrow> bool" where
  "hasVitePlugins ps names = list_ex (\<lambda>p. plugin_name p \<in> set names) ps"

text \<open>
  Modelled from the spec: \<open>mergeConfig\<close> of Vite is not part of the sources. The merge keeps
  what the first config has: the plugin lists are concatenated, a field or an alias of the
  second config replaces the one of the same name and is added when there is none.
\<close>

definition merge_fields :: "(string \<times> 'v) list \<Rightarrow> (string \<times> 'v) list \<Rightarrow> (string \<times> 'v) list" where
  "merge_fields defaults overrides =
     map (\<lambda>(k, v). (k, case map_of overrides k of Some w \<Rightarrow> w | None \<Rightarrow> v)) defaults
     @ filter (\<lambda>(k, w). k \<notin> set (map fst defaults)) overrides"

definition mergeConfig :: "viteConfig \<Rightarrow> viteConfig \<Rightarrow> viteConfig" where
  "mergeConfig defaults overrides =
     \<lparr>plugins =
        (case plugins overrides of
           None \<Rightarrow> plugins defaults
         | Some qs \<Rightarrow> (case plugins defaults of None \<Rightarrow> Some qs | Some ps \<Rightarrow> Some (ps @ qs))),
      resolve_alias = merge_fields (resolve_alias defaults) (resolve_alias overrides),
      resolve_rest = merge_fields (resolve_rest defaults) (resolve_rest overrides),
      other_fields = merge_fields (other_fields defaults) (other_fields overrides)\<rparr>"

text \<open>
  \<open>viteFinal\<close>; \<open>vue\<close> is the plugin that \<open>vue()\<close> of \<open>@vitejs/plugin-vue\<close> makes and
  \<open>vueComponentMeta\<close> the one that \<open>vueComponentMeta()\<close> makes.
\<close>

definition viteFinal :: "plugin \<Rightarrow> plugin \<Rightarrow> viteConfig \<Rightarrow> viteConfig" where
  "viteFinal vue vueComponentMeta config =
     (let plugins0 = [];
          plugins1 =
            (if \<not> hasVitePlugins (case plugins config of None \<Rightarrow> [] | Some ps \<Rightarrow> ps) [''vite:vue'']
             then plugins0 @ [vue] else plugins0);
          plugins2 = plugins1 @ [vueComponentMeta]
      in mergeConfig config
           \<lparr>plugins = Some plugins2,
            resolve_alias = [(''vue'', ''vue/dist/vue.esm-bundler.js'')],
            resolve_rest = [],
            other_fields = []\<rparr>)"

section \<open>The pattern of getVersionSpecifier\<close>

text \<open>
  A greedy \<open>Plus\<close> followed by a continuation that fails when the next code unit still
  belongs to the class takes the longest run or nothing. With it the matcher is computed
  on the two patterns, for every input.
\<close>

lemma plus_runs_concat:
  assumes K: "\<And>m c cs. p c \<Longrightarrow> K (m, c # cs) = []"
  shows "concat (map K (plus_runs p n s)) =
           (if takeWhile p s = [] then [] else K (n + length (takeWhile p s), dropWhile p s))"
proof (induction s arbitrary: n)
  case Nil
  then show ?case by simp
next
  case (Cons c cs)
  show ?case
  proof (cases "p c")
    case False
    then show ?thesis by simp
  next
    case True
    show ?thesis
    proof (cases cs)
      case Nil
      with True show ?thesis by simp
    next
      case (Cons d ds)
      show ?thesis
      proof (cases "p d")
        case True
        with \<open>p c\<close> Cons Cons.IH [of "Suc n"] K [of d "Suc n" ds] show ?thesis by simp
      next
        case False
        with \<open>p c\<close> Cons show ?thesis by simp
      qed
    qed
  qed
qed

lemma takeWhile_all: "takeWhile p v \<noteq> [] \<and> dropWhile p v = [] \<longleftrightarrow> v \<noteq> [] \<and> list_all p v"
  by (induction v) (auto simp: list_all_iff)

lemma rmatch_version_tail:
  "rmatch version_tail st =
     (case rest st of
        [] \<Rightarrow> [st]
      | c # v \<Rightarrow>
          if c = CHR ''@'' \<and> v \<noteq> [] \<and> list_all dot v
          then [st\<lparr>pos := Suc (pos st) + length v, rest := [],
                    caps := (caps st)(2 \<mapsto> v)\<rparr>]
          else [])"
proof (cases "rest st")
  case Nil
  then show ?thesis by (simp add: version_tail_def)
next
  case (Cons c v)
  show ?thesis
  proof (cases "c = CHR ''@''")
    case False
    with Cons show ?thesis by (simp add: version_tail_def)
  next
    case True
    define st1 where "st1 = st\<lparr>pos := Suc (pos st), rest := v\<rparr>"
    define K where "K = (\<lambda>(n, cs). rmatch Eol
             ((st1\<lparr>pos := n, rest := cs\<rparr>)\<lparr>caps := (caps st1)(2 \<mapsto> take (n - pos st1) (rest st1))\<rparr>))"
    have K0: "\<And>m c cs. dot c \<Longrightarrow> K (m, c # cs) = []"
      by (simp add: K_def)
    have "rmatch version_tail st = concat (map K (plus_runs dot (pos st1) (rest st1)))"
      using Cons True
      by (simp add: version_tail_def st1_def K_def comp_def case_prod_unfold)
    also have "\<dots> = (if takeWhile dot v = [] then []
                      else K (pos st1 + length (takeWhile dot v), dropWhile dot v))"
      using plus_runs_concat [of dot K, OF K0] by (simp add: st1_def)
    also have "\<dots> = (if v \<noteq> [] \<and> list_all dot v
                     then [st\<lparr>pos := Suc (pos st) + length v, rest := [],
                              caps := (caps st)(2 \<mapsto> v)\<rparr>]
                     else [])"
    proof (cases "v \<noteq> [] \<and> list_all dot v")
      case True
      then have tw: "takeWhile dot v = v" "dropWhile dot v = []"
        by (simp_all add: list_all_iff)
      from True show ?thesis unfolding tw by (simp add: K_def st1_def)
    next
      case False
      then have "takeWhile dot v = [] \<or> dropWhile dot v \<noteq> []"
        using takeWhile_all [of dot v] by blast
      with False show ?thesis by (auto simp: K_def st1_def)
    qed
    finally show ?thesis using Cons True by simp
  qed
qed


lemma addon_re_alt:
  "addon_re = Seq Bol (Seq (Grp 1 (Seq (Opt (Cls (\<lambda>c. c = CHR ''@''))) (Plus not_at))) version_tail)"
  by (simp add: addon_re_def version_tail_def not_at_def [abs_def])

lemma rmatch_version_tail_not_at: "not_at c \<Longrightarrow> rmatch version_tail (st\<lparr>rest := c # cs\<rparr>) = []"
  by (simp add: rmatch_version_tail not_at_def)

lemma rmatch_name_group:
  "rmatch (Seq (Grp 1 (Seq (Opt (Cls (\<lambda>c. c = CHR ''@''))) (Plus not_at))) version_tail)
       \<lparr>pos = 0, rest = s, caps = Map.empty\<rparr> =
     (if takeWhile not_at (drop (scope_len s) s) = [] then []
      else rmatch version_tail
             \<lparr>pos = scope_len s + length (takeWhile not_at (drop (scope_len s) s)),
              rest = dropWhile not_at (drop (scope_len s) s),
              caps = [1 \<mapsto> take (scope_len s + length (takeWhile not_at (drop (scope_len s) s))) s]\<rparr>)"
proof -
  define K where "K = (\<lambda>(n, cs). rmatch version_tail
      \<lparr>pos = n, rest = cs, caps = [1 \<mapsto> take n s]\<rparr>)"
  have K0: "\<And>m c cs. not_at c \<Longrightarrow> K (m, c # cs) = []"
    by (simp add: K_def rmatch_version_tail not_at_def)
  have "rmatch (Seq (Grp 1 (Seq (Opt (Cls (\<lambda>c. c = CHR ''@''))) (Plus not_at))) version_tail)
          \<lparr>pos = 0, rest = s, caps = Map.empty\<rparr>
          = concat (map K (plus_runs not_at (scope_len s) (drop (scope_len s) s)))"
  proof (cases s)
    case Nil
    then show ?thesis by (simp add: scope_len_def)
  next
    case (Cons c t)
    then show ?thesis
      by (cases "c = CHR ''@''")
        (simp_all add: K_def comp_def case_prod_unfold scope_len_def not_at_def)
  qed
  then show ?thesis
    using plus_runs_concat [of not_at K "scope_len s" "drop (scope_len s) s", OF K0]
    by (simp add: K_def)
qed

lemma exec_from_addon_re_later: "exec_from addon_re (Suc i) s = None"
  by (induction s arbitrary: i) (simp_all add: addon_re_def)

lemma exec_addon_re:
  "exec addon_re s =
     (case rmatch (Seq (Grp 1 (Seq (Opt (Cls (\<lambda>c. c = CHR ''@''))) (Plus not_at))) version_tail)
             \<lparr>pos = 0, rest = s, caps = Map.empty\<rparr> of
        [] \<Rightarrow> None
      | st # _ \<Rightarrow> Some (caps st))"
proof -
  have "rmatch addon_re \<lparr>pos = 0, rest = s, caps = Map.empty\<rparr> =
        rmatch (Seq (Grp 1 (Seq (Opt (Cls (\<lambda>c. c = CHR ''@''))) (Plus not_at))) version_tail)
             \<lparr>pos = 0, rest = s, caps = Map.empty\<rparr>"
    unfolding addon_re_alt by simp
  then show ?thesis
    unfolding exec_def
    by (cases s) (simp_all only: exec_from.simps exec_from_addon_re_later)
qed

lemma getVersionSpecifier_unfold:
  "getVersionSpecifier s =
     (let a = scope_len s;
          n = takeWhile not_at (drop a s);
          r = dropWhile not_at (drop a s)
      in if n = [] then (s, None)
         else case r of
           [] \<Rightarrow> (s, None)
         | c # v \<Rightarrow> if v \<noteq> [] \<and> list_all dot v then (take (a + length n) s, Some v)
                    else (s, None))"
proof -
  define a where "a = scope_len s"
  define n where "n = takeWhile not_at (drop a s)"
  define r where "r = dropWhile not_at (drop a s)"
  have len: "length s = length (take a s) + length n + length r"
  proof -
    have "length s = length (take a s @ n @ r)"
      by (simp add: n_def r_def)
    then show ?thesis by simp
  qed
  have whole: "r = [] \<Longrightarrow> take (a + length n) s = s"
    using len by simp
  have at: "r = c # v \<Longrightarrow> c = CHR ''@''" for c v
    using hd_dropWhile [of not_at "drop a s"] by (simp add: r_def not_at_def)
  show ?thesis
    unfolding getVersionSpecifier_def exec_addon_re rmatch_name_group rmatch_version_tail
      a_def [symmetric] n_def [symmetric] r_def [symmetric] Let_def
    using whole at by (auto split: list.splits)
qed


lemma exec_addon_re_group1: "exec addon_re s = Some groups \<Longrightarrow> groups 1 \<noteq> None"
  unfolding exec_addon_re rmatch_name_group rmatch_version_tail
  by (auto split: list.splits if_splits)

lemma take_scope_name:
  "take (scope_len s + length (takeWhile not_at (drop (scope_len s) s))) s =
     take (scope_len s) s @ takeWhile not_at (drop (scope_len s) s)"
  by (simp add: take_add takeWhile_eq_take [symmetric])

lemma no_at_after_scope:
  "CHR ''@'' \<notin> set (tl (take (scope_len s) s @ takeWhile not_at (drop (scope_len s) s)))"
proof (cases s)
  case Nil
  then show ?thesis by (simp add: scope_len_def)
next
  case (Cons c t)
  have "CHR ''@'' \<notin> set (takeWhile not_at u)" for u
    using set_takeWhileD [of "CHR ''@''" not_at u] by (auto simp: not_at_def)
  then show ?thesis
    using Cons by (cases "c = CHR ''@''") (auto simp: scope_len_def dest: list.set_sel(2) [rotated])
qed

lemma getVersionSpecifier_version:
  assumes "getVersionSpecifier s = (n, Some v)"
  shows "s = n @ CHR ''@'' # v" and "v \<noteq> []" and "n \<noteq> []" and "CHR ''@'' \<notin> set (tl n)"
    and "list_all dot v" and "n \<noteq> ''@''"
proof -
  define a where "a = scope_len s"
  define m where "m = takeWhile not_at (drop a s)"
  define r where "r = dropWhile not_at (drop a s)"
  have s_eq: "s = take a s @ m @ r"
    by (simp add: m_def r_def)
  from assms have *: "m \<noteq> []" "r = hd r # v" "v \<noteq> []" "list_all dot v" "n = take (a + length m) s"
    unfolding getVersionSpecifier_unfold Let_def a_def [symmetric] m_def [symmetric] r_def [symmetric]
    by (auto split: if_splits list.splits)
  have "r \<noteq> []" using *(2) by auto
  then have "\<not> not_at (hd r)"
    unfolding r_def by (rule hd_dropWhile)
  then have at: "hd r = CHR ''@''"
    by (simp add: not_at_def)
  have n: "n = take a s @ m"
    using * take_scope_name [of s] by (simp add: a_def m_def)
  show "v \<noteq> []" "list_all dot v" by fact+
  show "n \<noteq> []" using n * by simp
  show "CHR ''@'' \<notin> set (tl n)"
    using no_at_after_scope [of s] n by (simp add: a_def m_def)
  have "s = (take a s @ m) @ r" using s_eq by simp
  also have "r = CHR ''@'' # v" using *(2) at by simp
  finally show "s = n @ CHR ''@'' # v" using n by simp
  have "last m \<in> set (takeWhile not_at (drop a s))"
    using *(1) by (simp add: m_def)
  then have "not_at (last m)"
    by (rule set_takeWhileD [THEN conjunct2])
  moreover have "last n = last m"
    using n *(1) by simp
  ultimately show "n \<noteq> ''@''"
    by (auto simp: not_at_def)
qed

lemma getVersionSpecifier_no_version:
  assumes "getVersionSpecifier s = (n, None)"
  shows "n = s"
proof -
  define a where "a = scope_len s"
  define m where "m = takeWhile not_at (drop a s)"
  define r where "r = dropWhile not_at (drop a s)"
  have unfolded: "(if m = [] then (s, None)
         else case r of
           [] \<Rightarrow> (s, None)
         | c # v \<Rightarrow> if v \<noteq> [] \<and> list_all dot v then (take (a + length m) s, Some v)
                    else (s, None)) = (n, None)"
    using assms
    unfolding getVersionSpecifier_unfold Let_def a_def [symmetric] m_def [symmetric] r_def [symmetric] .
  show ?thesis
  proof (cases "m = []")
    case True
    with unfolded show ?thesis by simp
  next
    case False
    show ?thesis
    proof (cases r)
      case Nil
      with False unfolded show ?thesis by simp
    next
      case (Cons c v)
      with False unfolded show ?thesis by (simp split: if_splits)
    qed
  qed
qed

lemma getVersionSpecifier_name_nonempty:
  assumes "s \<noteq> []"
  shows "fst (getVersionSpecifier s) \<noteq> []"
proof (cases "getVersionSpecifier s")
  case (Pair n vo)
  show ?thesis
  proof (cases vo)
    case None
    with Pair assms getVersionSpecifier_no_version [of s n] show ?thesis by simp
  next
    case (Some v)
    with Pair getVersionSpecifier_version(3) [of s n v] show ?thesis by simp
  qed
qed


lemma getVersionSpecifier_split:
  assumes "n \<noteq> []" and "n \<noteq> ''@''" and "CHR ''@'' \<notin> set (tl n)"
    and "v \<noteq> []" and "list_all dot v"
  shows "getVersionSpecifier (n @ CHR ''@'' # v) = (n, Some v)"
proof -
  from assms(1) obtain c t where n: "n = c # t"
    by (cases n) auto
  have t: "\<And>x. x \<in> set t \<Longrightarrow> not_at x"
    using assms(3) n by (auto simp: not_at_def)
  have stop: "\<not> not_at CHR ''@''"
    by (simp add: not_at_def)
  show ?thesis
  proof (cases "c = CHR ''@''")
    case True
    with assms(2) n have "t \<noteq> []"
      by simp
    moreover have "takeWhile not_at (t @ CHR ''@'' # v) = t"
      using t stop by (simp add: takeWhile_append2)
    moreover have "dropWhile not_at (t @ CHR ''@'' # v) = CHR ''@'' # v"
      using t stop by (simp add: dropWhile_append2)
    ultimately show ?thesis
      using True n assms(4,5) unfolding getVersionSpecifier_unfold
      by (simp add: scope_len_def)
  next
    case False
    then have all: "\<And>x. x \<in> set n \<Longrightarrow> not_at x"
      using t n by (auto simp: not_at_def)
    have "takeWhile not_at (n @ CHR ''@'' # v) = n"
      using all stop by (simp add: takeWhile_append2)
    moreover have "dropWhile not_at (n @ CHR ''@'' # v) = CHR ''@'' # v"
      using all stop by (simp add: dropWhile_append2)
    moreover have "scope_len (n @ CHR ''@'' # v) = 0"
      using False n by (simp add: scope_len_def)
    ultimately show ?thesis
      using assms(1,4,5) unfolding getVersionSpecifier_unfold
      by simp
  qed
qed

text \<open>
  C3, as amended. For every input that is not empty the name is not empty. When there is a
  version, the input is the name, one \<open>@\<close> and the version; the version is not empty and has
  no line terminator; the name is not just \<open>@\<close> and has no \<open>@\<close> after its first code unit:
  the split is at the first \<open>@\<close> that is not the leading scope separator. When there is no
  version, the name is the whole input. And every input of that form is split: a name that
  is not empty and not just \<open>@\<close>, with no \<open>@\<close> after its first code unit, then \<open>@\<close>, then a
  version that is not empty and has no line terminator.
\<close>

theorem getVersionSpecifier_splits_at_first_at:
  "(addon \<noteq> [] \<longrightarrow> fst (getVersionSpecifier addon) \<noteq> []) \<and>
   (\<forall>v. snd (getVersionSpecifier addon) = Some v \<longrightarrow>
      addon = fst (getVersionSpecifier addon) @ CHR ''@'' # v \<and> v \<noteq> [] \<and> list_all dot v \<and>
      fst (getVersionSpecifier addon) \<noteq> ''@'' \<and>
      CHR ''@'' \<notin> set (tl (fst (getVersionSpecifier addon)))) \<and>
   (snd (getVersionSpecifier addon) = None \<longrightarrow> fst (getVersionSpecifier addon) = addon) \<and>
   (\<forall>n v. addon = n @ CHR ''@'' # v \<and> n \<noteq> [] \<and> n \<noteq> ''@'' \<and> CHR ''@'' \<notin> set (tl n) \<and>
      v \<noteq> [] \<and> list_all dot v \<longrightarrow> getVersionSpecifier addon = (n, Some v))"
proof (intro conjI allI impI)
  assume "addon \<noteq> []"
  then show "fst (getVersionSpecifier addon) \<noteq> []"
    by (rule getVersionSpecifier_name_nonempty)
next
  fix v
  assume "snd (getVersionSpecifier addon) = Some v"
  then have eq: "getVersionSpecifier addon = (fst (getVersionSpecifier addon), Some v)"
    by (metis prod.collapse)
  from getVersionSpecifier_version [OF eq]
  show "addon = fst (getVersionSpecifier addon) @ CHR ''@'' # v" and "v \<noteq> []"
    and "list_all dot v" and "fst (getVersionSpecifier addon) \<noteq> ''@''"
    and "CHR ''@'' \<notin> set (tl (fst (getVersionSpecifier addon)))"
    by blast+
next
  assume "snd (getVersionSpecifier addon) = None"
  then have "getVersionSpecifier addon = (fst (getVersionSpecifier addon), None)"
    by (metis prod.collapse)
  then show "fst (getVersionSpecifier addon) = addon"
    by (rule getVersionSpecifier_no_version)
next
  fix n v
  assume "addon = n @ CHR ''@'' # v \<and> n \<noteq> [] \<and> n \<noteq> ''@'' \<and> CHR ''@'' \<notin> set (tl n) \<and>
      v \<noteq> [] \<and> list_all dot v"
  then show "getVersionSpecifier addon = (n, Some v)"
    using getVersionSpecifier_split [of n v] by simp
qed

theorem getVersionSpecifier_splits_at_first_at_witness:
  "getVersionSpecifier ''a@1@2'' = (''a'', Some ''1@2'') \<and>
   fst (getVersionSpecifier ''a@1@2'') \<noteq> [] \<and>
   ''a@1@2'' = fst (getVersionSpecifier ''a@1@2'') @ CHR ''@'' # ''1@2'' \<and>
   CHR ''@'' \<notin> set (tl (fst (getVersionSpecifier ''a@1@2'')))"
proof -
  note split = getVersionSpecifier_splits_at_first_at [of "''a@1@2''"]
  have ev: "getVersionSpecifier ''a@1@2'' = (''a'', Some ''1@2'')"
    using split [THEN conjunct2, THEN conjunct2, THEN conjunct2, rule_format, of "''a''" "''1@2''"]
    by (simp add: dot_def isLineTerminator_def)
  then have "snd (getVersionSpecifier ''a@1@2'') = Some ''1@2''"
    by simp
  with split ev show ?thesis
    by (simp add: dot_def isLineTerminator_def)
qed

text \<open>
  C3 as stated fails: the empty input has the empty name; an input with two \<open>@\<close> after the
  name is split at the first of them, not at the last; and an input that starts with two
  \<open>@\<close> is not split.
\<close>

theorem getVersionSpecifier_last_at_counterexample:
  "fst (getVersionSpecifier []) = [] \<and>
   getVersionSpecifier ''a@1@2'' = (''a'', Some ''1@2'') \<and>
   getVersionSpecifier ''a@1@2'' \<noteq> (''a@1'', Some ''2'') \<and>
   getVersionSpecifier ''@@a'' = (''@@a'', None)"
  by code_simp

section \<open>Facts about add\<close>

lemma exec_from_digits_re_later: "exec_from digits_re (Suc i) s = None"
  by (induction s arbitrary: i) (simp_all add: digits_re_def)

lemma rmatch_digits_re:
  "rmatch digits_re \<lparr>pos = 0, rest = v, caps = Map.empty\<rparr> =
     (if v \<noteq> [] \<and> list_all digit v then [\<lparr>pos = length v, rest = [], caps = Map.empty\<rparr>] else [])"
proof -
  define K where "K = (\<lambda>(n, cs). rmatch Eol \<lparr>pos = n, rest = cs, caps = Map.empty\<rparr>)"
  have K0: "\<And>m c cs. digit c \<Longrightarrow> K (m, c # cs) = []"
    by (simp add: K_def)
  have "rmatch digits_re \<lparr>pos = 0, rest = v, caps = Map.empty\<rparr> = concat (map K (plus_runs digit 0 v))"
    by (simp add: digits_re_def K_def comp_def case_prod_unfold)
  also have "\<dots> = (if takeWhile digit v = [] then [] else K (length (takeWhile digit v), dropWhile digit v))"
    using plus_runs_concat [of digit K 0 v, OF K0] by simp
  also have "\<dots> = (if v \<noteq> [] \<and> list_all digit v then [\<lparr>pos = length v, rest = [], caps = Map.empty\<rparr>] else [])"
  proof (cases "v \<noteq> [] \<and> list_all digit v")
    case True
    then have tw: "takeWhile digit v = v" "dropWhile digit v = []"
      by (simp_all add: list_all_iff)
    from True show ?thesis unfolding tw by (simp add: K_def)
  next
    case False
    then have "takeWhile digit v = [] \<or> dropWhile digit v \<noteq> []"
      using takeWhile_all [of digit v] by blast
    with False show ?thesis by (auto simp: K_def)
  qed
  finally show ?thesis .
qed

lemma exec_digits_re: "exec digits_re v \<noteq> None \<longleftrightarrow> v \<noteq> [] \<and> list_all digit v"
  unfolding exec_def
  by (cases v) (simp_all only: exec_from.simps exec_from_digits_re_later rmatch_digits_re, simp_all)

lemma isValidVersion_iff:
  "isValidVersion E version \<longleftrightarrow>
     truthy (SemVer_valid E version) \<or> (version \<noteq> [] \<and> list_all digit version)"
  unfolding isValidVersion_def exec_digits_re ..


lemma snd_emit [simp]: "snd (emit es r) = snd r"
  by (cases r) simp

lemma fst_emit [simp]: "fst (emit es r) = es @ fst r"
  by (cases r) simp

lemma entry_matches_error: "entry_matches addonName entry = Inl e \<Longrightarrow> e = TypeError"
  by (cases entry) (auto simp: entry_matches_def split: sum.splits jsval.splits option.splits)

lemma find_entry_error: "find_entry addonName entries = Inl e \<Longrightarrow> e = TypeError"
  by (induction entries) (auto split: sum.splits bool.splits dest: entry_matches_error)

lemma checkInstalled_error: "checkInstalled addonName main = Inl e \<Longrightarrow> e = TypeError"
  by (cases main)
    (auto simp: checkInstalled_def split: sum.splits jsval.splits option.splits
       dest: find_entry_error)

lemma resolveConfigDir_Some: "resolveConfigDir u i \<noteq> None"
  by (cases u; cases i) (auto simp: resolveConfigDir_def js_or_def)

lemma resolveConfigDir_default:
  "\<not> truthy u \<Longrightarrow> \<not> truthy i \<Longrightarrow> resolveConfigDir u i = Some ''.storybook''"
  by (simp add: resolveConfigDir_def js_or_def)

lemma install_no_config_dir_error:
  "snd (install E pm addon addonName inputVersion mainConfig configDir skip) \<noteq> Threw ConfigDirError"
  by (simp add: install_def split: sum.splits option.splits)

lemma add_no_config_dir_error: "snd (add E addon opts) \<noteq> Threw ConfigDirError"
  by (auto simp: add_def Let_def install_no_config_dir_error resolveConfigDir_Some
      split: prod.splits sum.splits option.splits bool.splits dest: checkInstalled_error)


lemma add_reaches_install:
  assumes "getVersionSpecifier addon = (addonName, inputVersion)"
    and "retrievePackageJson (getPackageManager E (cli_packageManager opts)) = Inr packageJson"
    and "getStorybookInfo E packageJson (cli_configDir opts) = Inr (Some mainConfig, inferredConfigDir)"
    and "mainConfig \<noteq> []"
    and "resolveConfigDir (cli_configDir opts) inferredConfigDir = Some configDir"
    and "requireMain E configDir = Inr main"
    and "checkInstalled addonName main = Inr False"
  shows "add E addon opts =
     install E (getPackageManager E (cli_packageManager opts)) addon addonName inputVersion
       mainConfig configDir (cli_skipPostinstall opts)"
  using assms by (simp add: add_def)

lemma add_duplicate:
  assumes "getVersionSpecifier addon = (addonName, inputVersion)"
    and "retrievePackageJson (getPackageManager E (cli_packageManager opts)) = Inr packageJson"
    and "getStorybookInfo E packageJson (cli_configDir opts) = Inr (Some mainConfig, inferredConfigDir)"
    and "mainConfig \<noteq> []"
    and "resolveConfigDir (cli_configDir opts) inferredConfigDir = Some configDir"
    and "requireMain E configDir = Inr main"
    and "checkInstalled addonName main = Inr True"
  shows "add E addon opts = ([Log LError (AlreadyPresent addonName mainConfig)], Returned)"
  using assms by (simp add: add_def)

text \<open>The run of \<open>install\<close> up to the call that installs, and what follows a failure of it.\<close>

lemma install_resolved:
  assumes "readConfig E mainConfig = Inr main"
    and "getCoercedStorybookVersion E pm = Inr storybookVersion"
    and "resolveVersion E pm addonName inputVersion storybookVersion = Inr version"
  shows "install E pm addon addonName inputVersion mainConfig configDir skip =
     emit ([Log LLog (Verifying addonName)] @
           (if isCoreAddon E addonName \<and> Some version \<noteq> storybookVersion
            then [Log LWarn (VersionMismatch addonName)] else []) @
           [Log LLog (Installing (addonWithVersion E addonName version)),
            AddDependencies True [addonWithVersion E addonName version]])
       (case addDependencies pm True [addonWithVersion E addonName version] of
          Some x \<Rightarrow> ([], Threw (External x))
        | None \<Rightarrow>
            emit [Log LLog (Adding addon mainConfig),
                  AppendValueToArray [''addons''] addonName,
                  WriteConfig (appendValueToArray [''addons''] addonName main)]
              (case writeConfig E (appendValueToArray [''addons''] addonName main) of
                 Some x \<Rightarrow> ([], Threw (External x))
               | None \<Rightarrow>
                   if \<not> skip \<and> isCoreAddon E addonName
                   then emit [PostinstallAddon addonName (pm_type pm) configDir]
                          (case postinstallAddon E addonName (pm_type pm) configDir of
                             Some x \<Rightarrow> ([], Threw (External x))
                           | None \<Rightarrow> ([], Returned))
                   else ([], Returned)))"
  using assms by (simp add: install_def split: option.splits)

lemma install_success:
  assumes "readConfig E mainConfig = Inr main"
    and "getCoercedStorybookVersion E pm = Inr storybookVersion"
    and "resolveVersion E pm addonName inputVersion storybookVersion = Inr version"
    and "addDependencies pm True [addonWithVersion E addonName version] = None"
    and "writeConfig E (appendValueToArray [''addons''] addonName main) = None"
    and "\<not> skip \<and> isCoreAddon E addonName \<Longrightarrow>
         postinstallAddon E addonName (pm_type pm) configDir = None"
  shows "install E pm addon addonName inputVersion mainConfig configDir skip =
     ([Log LLog (Verifying addonName)] @
      (if isCoreAddon E addonName \<and> Some version \<noteq> storybookVersion
       then [Log LWarn (VersionMismatch addonName)] else []) @
      [Log LLog (Installing (addonWithVersion E addonName version)),
       AddDependencies True [addonWithVersion E addonName version],
       Log LLog (Adding addon mainConfig),
       AppendValueToArray [''addons''] addonName,
       WriteConfig (appendValueToArray [''addons''] addonName main)] @
      (if \<not> skip \<and> isCoreAddon E addonName
       then [PostinstallAddon addonName (pm_type pm) configDir] else []),
      Returned)"
  unfolding install_resolved [OF assms(1-3)] using assms(4-6) by auto

lemma resolveVersion_input:
  "v \<noteq> [] \<Longrightarrow> resolveVersion E pm addonName (Some v) storybookVersion = Inr v"
  by (simp add: resolveVersion_def)

lemma resolveVersion_storybook:
  "isCoreAddon E addonName \<Longrightarrow> s \<noteq> [] \<Longrightarrow> resolveVersion E pm addonName None (Some s) = Inr s"
  by (simp add: resolveVersion_def)

lemma resolveVersion_latest:
  "\<not> (isCoreAddon E addonName \<and> truthy storybookVersion) \<Longrightarrow>
   resolveVersion E pm addonName None storybookVersion = latestVersion pm addonName"
  by (auto simp: resolveVersion_def)

lemma getVersionSpecifier_docs:
  "getVersionSpecifier ''@storybook/addon-docs@7.0.1'' = (''@storybook/addon-docs'', Some ''7.0.1'')"
  by code_simp

lemma example_docs_run:
  "add example_project ''@storybook/addon-docs@7.0.1'' example_options =
     ([Log LLog (Verifying ''@storybook/addon-docs''),
       Log LLog (Installing ''@storybook/addon-docs@^7.0.1''),
       AddDependencies True [''@storybook/addon-docs@^7.0.1''],
       Log LLog (Adding ''@storybook/addon-docs@7.0.1'' ''.storybook/main.ts''),
       AppendValueToArray [''addons''] ''@storybook/addon-docs'',
       WriteConfig \<lparr>fileName = ''.storybook/main.ts'', edits = [([''addons''], ''@storybook/addon-docs'')]\<rparr>,
       PostinstallAddon ''@storybook/addon-docs'' ''npm'' ''.storybook''],
      Returned)"
  by code_simp


text \<open>What the calls of the example project return.\<close>

lemma example_getPackageManager:
  "getPackageManager example_project (cli_packageManager example_options) = example_pm"
  by (simp add: example_project_def)

lemma example_retrievePackageJson:
  "retrievePackageJson (getPackageManager example_project (cli_packageManager example_options)) =
     Inr (JObj [])"
  by (simp add: example_project_def example_pm_def)

lemma example_getStorybookInfo:
  "getStorybookInfo example_project (JObj []) (cli_configDir example_options) =
     Inr (Some ''.storybook/main.ts'', None)"
  by (simp add: example_project_def)

lemma example_resolveConfigDir:
  "resolveConfigDir (cli_configDir example_options) None = Some ''.storybook''"
  by (simp add: example_options_def resolveConfigDir_def js_or_def)

lemma example_requireMain:
  "requireMain example_project ''.storybook'' =
     Inr (JObj [(''addons'', JArr [JStr ''@storybook/addon-essentials''])])"
  by (simp add: example_project_def requireMain_def)

lemma example_readConfig:
  "readConfig example_project ''.storybook/main.ts'' =
     Inr \<lparr>fileName = ''.storybook/main.ts'', edits = []\<rparr>"
  by (simp add: example_project_def)

lemma example_getCoercedStorybookVersion:
  "getCoercedStorybookVersion example_project
     (getPackageManager example_project (cli_packageManager example_options)) = Inr (Some ''7.0.1'')"
  by (simp add: example_project_def)

lemma example_checkInstalled_docs:
  "checkInstalled ''@storybook/addon-docs''
     (JObj [(''addons'', JArr [JStr ''@storybook/addon-essentials''])]) = Inr False"
  by code_simp

lemma example_isCoreAddon_docs: "isCoreAddon example_project ''@storybook/addon-docs''"
  by (simp add: isCoreAddon_def example_project_def)

lemma example_valid_701: "truthy (SemVer_valid example_project ''7.0.1'')"
  by (simp add: example_project_def example_valid_def)

section \<open>The claims about add\<close>

text \<open>
  C1, as amended. When the main config is found, the addon is not in it and every call to a
  collaborator succeeds, \<open>add\<close> of \<open>@storybook/addon-docs@7.0.1\<close> makes one install call, whose
  package spec is \<open>@storybook/addon-docs@^7.0.1\<close> (with the caret, \<open>7.0.1\<close> being a valid
  semantic version), one edit that appends the bare name to \<open>addons\<close> and one write of the
  edited config, and one post-install call unless \<open>skipPostinstall\<close> is set or the name is
  not in the version table; then it returns.
\<close>

theorem add_addon_docs_end_to_end:
  assumes "retrievePackageJson (getPackageManager E (cli_packageManager opts)) = Inr packageJson"
    and "getStorybookInfo E packageJson (cli_configDir opts) = Inr (Some mainConfig, inferredConfigDir)"
    and "mainConfig \<noteq> []"
    and "resolveConfigDir (cli_configDir opts) inferredConfigDir = Some configDir"
    and "requireMain E configDir = Inr rawMain"
    and "checkInstalled ''@storybook/addon-docs'' rawMain = Inr False"
    and "readConfig E mainConfig = Inr main"
    and "getCoercedStorybookVersion E (getPackageManager E (cli_packageManager opts)) =
           Inr storybookVersion"
    and "truthy (SemVer_valid E ''7.0.1'')"
    and "addDependencies (getPackageManager E (cli_packageManager opts)) True
           [''@storybook/addon-docs@^7.0.1''] = None"
    and "writeConfig E (appendValueToArray [''addons''] ''@storybook/addon-docs'' main) = None"
    and "\<not> cli_skipPostinstall opts \<and> isCoreAddon E ''@storybook/addon-docs'' \<Longrightarrow>
         postinstallAddon E ''@storybook/addon-docs''
           (pm_type (getPackageManager E (cli_packageManager opts))) configDir = None"
  shows "filter is_install (fst (add E ''@storybook/addon-docs@7.0.1'' opts)) =
           [AddDependencies True [''@storybook/addon-docs@^7.0.1'']] \<and>
         filter is_config_write (fst (add E ''@storybook/addon-docs@7.0.1'' opts)) =
           [AppendValueToArray [''addons''] ''@storybook/addon-docs'',
            WriteConfig (appendValueToArray [''addons''] ''@storybook/addon-docs'' main)] \<and>
         filter is_postinstall (fst (add E ''@storybook/addon-docs@7.0.1'' opts)) =
           (if \<not> cli_skipPostinstall opts \<and> isCoreAddon E ''@storybook/addon-docs''
            then [PostinstallAddon ''@storybook/addon-docs''
                    (pm_type (getPackageManager E (cli_packageManager opts))) configDir]
            else []) \<and>
         snd (add E ''@storybook/addon-docs@7.0.1'' opts) = Returned"
proof -
  let ?pm = "getPackageManager E (cli_packageManager opts)"
  have spec: "addonWithVersion E ''@storybook/addon-docs'' ''7.0.1'' = ''@storybook/addon-docs@^7.0.1''"
    using assms(9) by (simp add: addonWithVersion_def isValidVersion_iff)
  have version: "resolveVersion E ?pm ''@storybook/addon-docs'' (Some ''7.0.1'') storybookVersion = Inr ''7.0.1''"
    by (simp add: resolveVersion_input)
  have "add E ''@storybook/addon-docs@7.0.1'' opts =
      install E ?pm ''@storybook/addon-docs@7.0.1'' ''@storybook/addon-docs'' (Some ''7.0.1'')
        mainConfig configDir (cli_skipPostinstall opts)"
    using getVersionSpecifier_docs assms(1-6) by (rule add_reaches_install)
  also note install_success [OF assms(7,8) version, unfolded spec, OF assms(10,11,12)]
  finally show ?thesis by simp
qed

theorem add_addon_docs_end_to_end_witness:
  "filter is_install (fst (add example_project ''@storybook/addon-docs@7.0.1'' example_options)) =
     [AddDependencies True [''@storybook/addon-docs@^7.0.1'']] \<and>
   filter is_config_write (fst (add example_project ''@storybook/addon-docs@7.0.1'' example_options)) =
     [AppendValueToArray [''addons''] ''@storybook/addon-docs'',
      WriteConfig \<lparr>fileName = ''.storybook/main.ts'', edits = [([''addons''], ''@storybook/addon-docs'')]\<rparr>] \<and>
   filter is_postinstall (fst (add example_project ''@storybook/addon-docs@7.0.1'' example_options)) =
     [PostinstallAddon ''@storybook/addon-docs'' ''npm'' ''.storybook''] \<and>
   snd (add example_project ''@storybook/addon-docs@7.0.1'' example_options) = Returned"
proof -
  have install: "addDependencies (getPackageManager example_project (cli_packageManager example_options))
      True [''@storybook/addon-docs@^7.0.1''] = None"
    by (simp add: example_project_def example_pm_def)
  have "write": "writeConfig example_project
      (appendValueToArray [''addons''] ''@storybook/addon-docs''
        \<lparr>fileName = ''.storybook/main.ts'', edits = []\<rparr>) = None"
    by (simp add: example_project_def)
  have post: "postinstallAddon example_project ''@storybook/addon-docs''
      (pm_type (getPackageManager example_project (cli_packageManager example_options)))
      ''.storybook'' = None"
    by (simp add: example_project_def)
  have skip: "\<not> cli_skipPostinstall example_options"
    by (simp add: example_options_def)
  have npm: "pm_type (getPackageManager example_project (cli_packageManager example_options)) = ''npm''"
    by (simp add: example_project_def example_pm_def)
  from add_addon_docs_end_to_end [OF example_retrievePackageJson example_getStorybookInfo _
      example_resolveConfigDir example_requireMain example_checkInstalled_docs example_readConfig
      example_getCoercedStorybookVersion example_valid_701 install "write" post]
  show ?thesis
    using skip example_isCoreAddon_docs npm by (simp add: appendValueToArray_def)
qed

text \<open>
  C1 as stated fails on the package spec: the one install call of the example project is
  given \<open>@storybook/addon-docs@^7.0.1\<close>, which is not the specifier that was passed in.
\<close>

theorem add_addon_docs_spec_counterexample:
  "filter is_install (fst (add example_project ''@storybook/addon-docs@7.0.1'' example_options)) =
     [AddDependencies True [''@storybook/addon-docs@^7.0.1'']] \<and>
   ''@storybook/addon-docs@^7.0.1'' \<noteq> ''@storybook/addon-docs@7.0.1''"
  unfolding example_docs_run by simp

lemma resolveConfigDir_flag: "d \<noteq> [] \<Longrightarrow> resolveConfigDir (Some d) i = Some d"
  by (simp add: resolveConfigDir_def js_or_def)

lemma resolveConfigDir_inferred:
  "\<not> truthy u \<Longrightarrow> d \<noteq> [] \<Longrightarrow> resolveConfigDir u (Some d) = Some d"
  by (simp add: resolveConfigDir_def js_or_def)

lemma add_default_no_config_dir_error:
  assumes "retrievePackageJson (getPackageManager E (cli_packageManager opts)) = Inr packageJson"
    and "getStorybookInfo E packageJson (cli_configDir opts) = Inr (mainConfig, inferredConfigDir)"
    and "\<not> truthy (cli_configDir opts)" and "\<not> truthy inferredConfigDir"
  shows "snd (add E addon opts) \<noteq> Threw ConfigDirError"
  using assms resolveConfigDir_default [OF assms(3,4)]
  by (auto simp: add_def Let_def install_no_config_dir_error
      split: prod.splits sum.splits option.splits bool.splits dest: checkInstalled_error)

text \<open>
  C2, as amended. The config directory that \<open>add\<close> uses is the one given with the flag when
  there is one (not empty), else the inferred one when there is one, else \<open>.storybook\<close>: with
  that directory \<open>add\<close> loads the main config and, the main config being found, goes on to
  install when the addon is not in it and logs the duplicate when it is. So when no directory
  is given and none is inferred, \<open>add\<close> does not throw the error of the missing config
  directory and goes on with \<open>.storybook\<close>.
\<close>

theorem add_config_dir_defaults:
  "(\<forall>d. cli_configDir opts = Some d \<and> d \<noteq> [] \<longrightarrow>
      resolveConfigDir (cli_configDir opts) inferredConfigDir = Some d) \<and>
   (\<forall>d. \<not> truthy (cli_configDir opts) \<and> inferredConfigDir = Some d \<and> d \<noteq> [] \<longrightarrow>
      resolveConfigDir (cli_configDir opts) inferredConfigDir = Some d) \<and>
   (\<not> truthy (cli_configDir opts) \<and> \<not> truthy inferredConfigDir \<longrightarrow>
      resolveConfigDir (cli_configDir opts) inferredConfigDir = Some ''.storybook'') \<and>
   (\<forall>configDir main.
      getVersionSpecifier addon = (addonName, inputVersion) \<and>
      retrievePackageJson (getPackageManager E (cli_packageManager opts)) = Inr packageJson \<and>
      getStorybookInfo E packageJson (cli_configDir opts) = Inr (Some mainConfig, inferredConfigDir) \<and>
      mainConfig \<noteq> [] \<and>
      resolveConfigDir (cli_configDir opts) inferredConfigDir = Some configDir \<and>
      requireMain E configDir = Inr main \<longrightarrow>
        (checkInstalled addonName main = Inr False \<longrightarrow>
           add E addon opts =
             install E (getPackageManager E (cli_packageManager opts)) addon addonName inputVersion
               mainConfig configDir (cli_skipPostinstall opts)) \<and>
        (checkInstalled addonName main = Inr True \<longrightarrow>
           add E addon opts = ([Log LError (AlreadyPresent addonName mainConfig)], Returned))) \<and>
   (\<forall>main.
      getVersionSpecifier addon = (addonName, inputVersion) \<and>
      retrievePackageJson (getPackageManager E (cli_packageManager opts)) = Inr packageJson \<and>
      getStorybookInfo E packageJson (cli_configDir opts) = Inr (Some mainConfig, inferredConfigDir) \<and>
      mainConfig \<noteq> [] \<and>
      \<not> truthy (cli_configDir opts) \<and> \<not> truthy inferredConfigDir \<and>
      requireMain E ''.storybook'' = Inr main \<and> checkInstalled addonName main = Inr False \<longrightarrow>
        add E addon opts =
          install E (getPackageManager E (cli_packageManager opts)) addon addonName inputVersion
            mainConfig ''.storybook'' (cli_skipPostinstall opts)) \<and>
   (\<forall>found.
      retrievePackageJson (getPackageManager E (cli_packageManager opts)) = Inr packageJson \<and>
      getStorybookInfo E packageJson (cli_configDir opts) = Inr (found, inferredConfigDir) \<and>
      \<not> truthy (cli_configDir opts) \<and> \<not> truthy inferredConfigDir \<longrightarrow>
        snd (add E addon opts) \<noteq> Threw ConfigDirError)"
proof (intro conjI allI impI)
  fix d
  assume "cli_configDir opts = Some d \<and> d \<noteq> []"
  then show "resolveConfigDir (cli_configDir opts) inferredConfigDir = Some d"
    by (simp add: resolveConfigDir_flag)
next
  fix d
  assume "\<not> truthy (cli_configDir opts) \<and> inferredConfigDir = Some d \<and> d \<noteq> []"
  then show "resolveConfigDir (cli_configDir opts) inferredConfigDir = Some d"
    by (simp add: resolveConfigDir_inferred)
next
  assume "\<not> truthy (cli_configDir opts) \<and> \<not> truthy inferredConfigDir"
  then show "resolveConfigDir (cli_configDir opts) inferredConfigDir = Some ''.storybook''"
    by (simp add: resolveConfigDir_default)
next
  fix configDir main
  assume reach: "getVersionSpecifier addon = (addonName, inputVersion) \<and>
      retrievePackageJson (getPackageManager E (cli_packageManager opts)) = Inr packageJson \<and>
      getStorybookInfo E packageJson (cli_configDir opts) = Inr (Some mainConfig, inferredConfigDir) \<and>
      mainConfig \<noteq> [] \<and>
      resolveConfigDir (cli_configDir opts) inferredConfigDir = Some configDir \<and>
      requireMain E configDir = Inr main"
  show "add E addon opts =
      install E (getPackageManager E (cli_packageManager opts)) addon addonName inputVersion
        mainConfig configDir (cli_skipPostinstall opts)"
    if "checkInstalled addonName main = Inr False"
    using reach that add_reaches_install [of addon addonName inputVersion E opts packageJson
        mainConfig inferredConfigDir configDir main]
    by simp
  show "add E addon opts = ([Log LError (AlreadyPresent addonName mainConfig)], Returned)"
    if "checkInstalled addonName main = Inr True"
    using reach that add_duplicate [of addon addonName inputVersion E opts packageJson
        mainConfig inferredConfigDir configDir main]
    by simp
next
  fix main
  assume reach: "getVersionSpecifier addon = (addonName, inputVersion) \<and>
      retrievePackageJson (getPackageManager E (cli_packageManager opts)) = Inr packageJson \<and>
      getStorybookInfo E packageJson (cli_configDir opts) = Inr (Some mainConfig, inferredConfigDir) \<and>
      mainConfig \<noteq> [] \<and>
      \<not> truthy (cli_configDir opts) \<and> \<not> truthy inferredConfigDir \<and>
      requireMain E ''.storybook'' = Inr main \<and> checkInstalled addonName main = Inr False"
  then have "resolveConfigDir (cli_configDir opts) inferredConfigDir = Some ''.storybook''"
    by (simp add: resolveConfigDir_default)
  with reach show "add E addon opts =
      install E (getPackageManager E (cli_packageManager opts)) addon addonName inputVersion
        mainConfig ''.storybook'' (cli_skipPostinstall opts)"
    using add_reaches_install [of addon addonName inputVersion E opts packageJson
        mainConfig inferredConfigDir "''.storybook''" main]
    by simp
next
  fix found
  assume "retrievePackageJson (getPackageManager E (cli_packageManager opts)) = Inr packageJson \<and>
      getStorybookInfo E packageJson (cli_configDir opts) = Inr (found, inferredConfigDir) \<and>
      \<not> truthy (cli_configDir opts) \<and> \<not> truthy inferredConfigDir"
  then show "snd (add E addon opts) \<noteq> Threw ConfigDirError"
    using add_default_no_config_dir_error [of E opts packageJson found inferredConfigDir addon]
    by simp
qed

lemma example_install_default:
  "install example_project example_pm ''@storybook/addon-docs@7.0.1'' ''@storybook/addon-docs''
     (Some ''7.0.1'') ''.storybook/main.ts'' ''.storybook'' False =
     ([Log LLog (Verifying ''@storybook/addon-docs''),
       Log LLog (Installing ''@storybook/addon-docs@^7.0.1''),
       AddDependencies True [''@storybook/addon-docs@^7.0.1''],
       Log LLog (Adding ''@storybook/addon-docs@7.0.1'' ''.storybook/main.ts''),
       AppendValueToArray [''addons''] ''@storybook/addon-docs'',
       WriteConfig \<lparr>fileName = ''.storybook/main.ts'', edits = [([''addons''], ''@storybook/addon-docs'')]\<rparr>,
       PostinstallAddon ''@storybook/addon-docs'' ''npm'' ''.storybook''],
      Returned)"
  by code_simp

lemma example_install_flag:
  "install example_project example_pm ''@storybook/addon-docs@7.0.1'' ''@storybook/addon-docs''
     (Some ''7.0.1'') ''.storybook/main.ts'' ''config'' False =
     ([Log LLog (Verifying ''@storybook/addon-docs''),
       Log LLog (Installing ''@storybook/addon-docs@^7.0.1''),
       AddDependencies True [''@storybook/addon-docs@^7.0.1''],
       Log LLog (Adding ''@storybook/addon-docs@7.0.1'' ''.storybook/main.ts''),
       AppendValueToArray [''addons''] ''@storybook/addon-docs'',
       WriteConfig \<lparr>fileName = ''.storybook/main.ts'', edits = [([''addons''], ''@storybook/addon-docs'')]\<rparr>,
       PostinstallAddon ''@storybook/addon-docs'' ''npm'' ''config''],
      Returned)"
  by code_simp

theorem add_config_dir_defaults_witness:
  "resolveConfigDir (cli_configDir example_options) None = Some ''.storybook'' \<and>
   PostinstallAddon ''@storybook/addon-docs'' ''npm'' ''.storybook'' \<in>
     set (fst (add example_project ''@storybook/addon-docs@7.0.1'' example_options)) \<and>
   snd (add example_project ''@storybook/addon-docs@7.0.1'' example_options) = Returned \<and>
   resolveConfigDir (cli_configDir (example_options\<lparr>cli_configDir := Some ''config''\<rparr>)) None =
     Some ''config'' \<and>
   PostinstallAddon ''@storybook/addon-docs'' ''npm'' ''config'' \<in>
     set (fst (add example_project ''@storybook/addon-docs@7.0.1''
       (example_options\<lparr>cli_configDir := Some ''config''\<rparr>))) \<and>
   resolveConfigDir None (Some ''sb'') = Some ''sb''"
proof -
  let ?flag = "example_options\<lparr>cli_configDir := Some ''config''\<rparr>"
  let ?inferred = "example_options\<lparr>cli_configDir := None\<rparr>"
  note default = add_config_dir_defaults
    [of example_options None "''@storybook/addon-docs@7.0.1''" "''@storybook/addon-docs''"
      "Some ''7.0.1''" example_project "JObj []" "''.storybook/main.ts''"]
  note flag = add_config_dir_defaults
    [of ?flag None "''@storybook/addon-docs@7.0.1''" "''@storybook/addon-docs''"
      "Some ''7.0.1''" example_project "JObj []" "''.storybook/main.ts''"]
  note inferred = add_config_dir_defaults
    [of ?inferred "Some ''sb''" "''@storybook/addon-docs@7.0.1''" "''@storybook/addon-docs''"
      "Some ''7.0.1''" example_project "JObj []" "''.storybook/main.ts''"]
  have opts: "cli_configDir example_options = None" "\<not> cli_skipPostinstall example_options"
    "cli_packageManager example_options = None"
    by (simp_all add: example_options_def)
  have calls: "getPackageManager example_project None = example_pm"
    "retrievePackageJson example_pm = Inr (JObj [])"
    "getStorybookInfo example_project (JObj []) None = Inr (Some ''.storybook/main.ts'', None)"
    "getStorybookInfo example_project (JObj []) (Some ''config'') = Inr (Some ''.storybook/main.ts'', None)"
    "requireMain example_project ''.storybook'' =
       Inr (JObj [(''addons'', JArr [JStr ''@storybook/addon-essentials''])])"
    "requireMain example_project ''config'' =
       Inr (JObj [(''addons'', JArr [JStr ''@storybook/addon-essentials''])])"
    by (simp_all add: example_project_def example_pm_def requireMain_def)
  have dir: "resolveConfigDir (cli_configDir example_options) None = Some ''.storybook''"
    using default [THEN conjunct2, THEN conjunct2, THEN conjunct1] opts by simp
  have run: "add example_project ''@storybook/addon-docs@7.0.1'' example_options =
      install example_project example_pm ''@storybook/addon-docs@7.0.1'' ''@storybook/addon-docs''
        (Some ''7.0.1'') ''.storybook/main.ts'' ''.storybook'' False"
    using default [THEN conjunct2, THEN conjunct2, THEN conjunct2, THEN conjunct2, THEN conjunct1,
        rule_format, of "JObj [(''addons'', JArr [JStr ''@storybook/addon-essentials''])]"]
      opts calls getVersionSpecifier_docs example_checkInstalled_docs
    by simp
  have flag_dir: "resolveConfigDir (cli_configDir ?flag) None = Some ''config''"
    using flag [THEN conjunct1, rule_format, of "''config''"] by simp
  have flag_run: "add example_project ''@storybook/addon-docs@7.0.1'' ?flag =
      install example_project example_pm ''@storybook/addon-docs@7.0.1'' ''@storybook/addon-docs''
        (Some ''7.0.1'') ''.storybook/main.ts'' ''config'' False"
    using flag [THEN conjunct2, THEN conjunct2, THEN conjunct2, THEN conjunct1, rule_format,
        of "''config''" "JObj [(''addons'', JArr [JStr ''@storybook/addon-essentials''])]",
        THEN conjunct1]
      flag_dir opts calls getVersionSpecifier_docs example_checkInstalled_docs
    by simp
  have inferred_dir: "resolveConfigDir None (Some ''sb'') = Some ''sb''"
    using inferred [THEN conjunct2, THEN conjunct1, rule_format, of "''sb''"] by simp
  show ?thesis
    using dir inferred_dir flag_dir
    unfolding run flag_run example_install_default example_install_flag
    by simp
qed

text \<open>
  C2 as stated fails: in the example project no config directory is given or inferred, and
  \<open>add\<close> installs, writes the config with the directory \<open>.storybook\<close> and returns.
\<close>

theorem add_config_dir_error_counterexample:
  "cli_configDir example_options = None \<and>
   getStorybookInfo example_project (JObj []) None = Inr (Some ''.storybook/main.ts'', None) \<and>
   add example_project ''@storybook/addon-docs@7.0.1'' example_options =
     ([Log LLog (Verifying ''@storybook/addon-docs''),
       Log LLog (Installing ''@storybook/addon-docs@^7.0.1''),
       AddDependencies True [''@storybook/addon-docs@^7.0.1''],
       Log LLog (Adding ''@storybook/addon-docs@7.0.1'' ''.storybook/main.ts''),
       AppendValueToArray [''addons''] ''@storybook/addon-docs'',
       WriteConfig \<lparr>fileName = ''.storybook/main.ts'', edits = [([''addons''], ''@storybook/addon-docs'')]\<rparr>,
       PostinstallAddon ''@storybook/addon-docs'' ''npm'' ''.storybook''],
      Returned)"
  unfolding example_docs_run by (simp add: example_options_def example_project_def)

lemma add_installs_resolved:
  assumes "getVersionSpecifier addon = (addonName, inputVersion)"
    and "retrievePackageJson (getPackageManager E (cli_packageManager opts)) = Inr packageJson"
    and "getStorybookInfo E packageJson (cli_configDir opts) = Inr (Some mainConfig, inferredConfigDir)"
    and "mainConfig \<noteq> []"
    and "resolveConfigDir (cli_configDir opts) inferredConfigDir = Some configDir"
    and "requireMain E configDir = Inr rawMain"
    and "checkInstalled addonName rawMain = Inr False"
    and "readConfig E mainConfig = Inr main"
    and "getCoercedStorybookVersion E (getPackageManager E (cli_packageManager opts)) =
           Inr storybookVersion"
    and "resolveVersion E (getPackageManager E (cli_packageManager opts)) addonName inputVersion
           storybookVersion = Inr version"
  shows "filter is_install (fst (add E addon opts)) =
           [AddDependencies True [addonWithVersion E addonName version]]"
  unfolding add_reaches_install [OF assms(1-7)] install_resolved [OF assms(8-10)]
  by (simp split: option.splits)

text \<open>
  C4. In a run that reaches the resolution of the version: a version given in the specifier
  is the version, as it is; else, for a core addon with a Storybook version at hand (defined
  and not empty), that version is; else what \<open>latestVersion\<close> returns for the name is. The
  one install call of \<open>add\<close> is given the package spec of that version.
\<close>

theorem add_version_precedence:
  assumes "getVersionSpecifier addon = (addonName, inputVersion)"
    and "retrievePackageJson (getPackageManager E (cli_packageManager opts)) = Inr packageJson"
    and "getStorybookInfo E packageJson (cli_configDir opts) = Inr (Some mainConfig, inferredConfigDir)"
    and "mainConfig \<noteq> []"
    and "resolveConfigDir (cli_configDir opts) inferredConfigDir = Some configDir"
    and "requireMain E configDir = Inr rawMain"
    and "checkInstalled addonName rawMain = Inr False"
    and "readConfig E mainConfig = Inr main"
    and "getCoercedStorybookVersion E (getPackageManager E (cli_packageManager opts)) =
           Inr storybookVersion"
  shows "(\<forall>v. inputVersion = Some v \<longrightarrow>
            resolveVersion E (getPackageManager E (cli_packageManager opts)) addonName inputVersion
              storybookVersion = Inr v) \<and>
         (\<forall>s. inputVersion = None \<and> isCoreAddon E addonName \<and> storybookVersion = Some s \<and> s \<noteq> [] \<longrightarrow>
            resolveVersion E (getPackageManager E (cli_packageManager opts)) addonName inputVersion
              storybookVersion = Inr s) \<and>
         (inputVersion = None \<and> \<not> (isCoreAddon E addonName \<and> truthy storybookVersion) \<longrightarrow>
            resolveVersion E (getPackageManager E (cli_packageManager opts)) addonName inputVersion
              storybookVersion = latestVersion (getPackageManager E (cli_packageManager opts)) addonName) \<and>
         (\<forall>version.
            resolveVersion E (getPackageManager E (cli_packageManager opts)) addonName inputVersion
              storybookVersion = Inr version \<longrightarrow>
            filter is_install (fst (add E addon opts)) =
              [AddDependencies True [addonWithVersion E addonName version]])"
proof (intro conjI allI impI)
  fix v
  assume "inputVersion = Some v"
  with assms(1) getVersionSpecifier_version(2) [of addon addonName v] have "v \<noteq> []"
    by simp
  with \<open>inputVersion = Some v\<close>
  show "resolveVersion E (getPackageManager E (cli_packageManager opts)) addonName inputVersion
          storybookVersion = Inr v"
    by (simp add: resolveVersion_input)
next
  fix s
  assume "inputVersion = None \<and> isCoreAddon E addonName \<and> storybookVersion = Some s \<and> s \<noteq> []"
  then show "resolveVersion E (getPackageManager E (cli_packageManager opts)) addonName inputVersion
          storybookVersion = Inr s"
    by (simp add: resolveVersion_storybook)
next
  assume "inputVersion = None \<and> \<not> (isCoreAddon E addonName \<and> truthy storybookVersion)"
  then show "resolveVersion E (getPackageManager E (cli_packageManager opts)) addonName inputVersion
          storybookVersion = latestVersion (getPackageManager E (cli_packageManager opts)) addonName"
    using resolveVersion_latest [of E addonName storybookVersion] by simp
next
  fix version
  assume "resolveVersion E (getPackageManager E (cli_packageManager opts)) addonName inputVersion
              storybookVersion = Inr version"
  with assms show "filter is_install (fst (add E addon opts)) =
              [AddDependencies True [addonWithVersion E addonName version]]"
    by (rule add_installs_resolved)
qed

lemma getVersionSpecifier_docs_bare:
  "getVersionSpecifier ''@storybook/addon-docs'' = (''@storybook/addon-docs'', None)"
  by code_simp

theorem add_version_precedence_witness:
  "resolveVersion example_project
     (getPackageManager example_project (cli_packageManager example_options))
     ''@storybook/addon-docs'' None (Some ''7.0.1'') = Inr ''7.0.1'' \<and>
   filter is_install (fst (add example_project ''@storybook/addon-docs'' example_options)) =
     [AddDependencies True [''@storybook/addon-docs@^7.0.1'']]"
proof -
  have spec: "addonWithVersion example_project ''@storybook/addon-docs'' ''7.0.1'' =
      ''@storybook/addon-docs@^7.0.1''"
    using example_valid_701 by (simp add: addonWithVersion_def isValidVersion_iff)
  from add_version_precedence [OF getVersionSpecifier_docs_bare example_retrievePackageJson
      example_getStorybookInfo _ example_resolveConfigDir example_requireMain
      example_checkInstalled_docs example_readConfig example_getCoercedStorybookVersion]
  show ?thesis
    using example_isCoreAddon_docs spec by simp
qed

text \<open>
  C5. In a run that reaches the install call, the package spec is \<open>name@^version\<close> when
  \<open>isValidVersion\<close> holds of the resolved version and \<open>name@version\<close> otherwise;
  \<open>isValidVersion\<close> holds exactly of what \<open>SemVer.valid\<close> accepts and of the strings of
  digits. It holds of \<open>7\<close>, of \<open>1.2.3\<close> as \<open>SemVer.valid\<close> accepts it, and not of \<open>next\<close> as
  \<open>SemVer.valid\<close> rejects it, for which the spec is \<open>name@next\<close>.
\<close>

theorem installed_spec_format:
  assumes "getVersionSpecifier addon = (addonName, inputVersion)"
    and "retrievePackageJson (getPackageManager E (cli_packageManager opts)) = Inr packageJson"
    and "getStorybookInfo E packageJson (cli_configDir opts) = Inr (Some mainConfig, inferredConfigDir)"
    and "mainConfig \<noteq> []"
    and "resolveConfigDir (cli_configDir opts) inferredConfigDir = Some configDir"
    and "requireMain E configDir = Inr rawMain"
    and "checkInstalled addonName rawMain = Inr False"
    and "readConfig E mainConfig = Inr main"
    and "getCoercedStorybookVersion E (getPackageManager E (cli_packageManager opts)) =
           Inr storybookVersion"
    and "resolveVersion E (getPackageManager E (cli_packageManager opts)) addonName inputVersion
           storybookVersion = Inr version"
  shows "filter is_install (fst (add E addon opts)) =
           [AddDependencies True
              [if isValidVersion E version then addonName @ ''@^'' @ version
               else addonName @ ''@'' @ version]] \<and>
         (isValidVersion E version \<longleftrightarrow>
            truthy (SemVer_valid E version) \<or> (version \<noteq> [] \<and> list_all digit version)) \<and>
         isValidVersion E ''7'' \<and>
         (truthy (SemVer_valid E ''1.2.3'') \<longrightarrow> isValidVersion E ''1.2.3'') \<and>
         (\<not> truthy (SemVer_valid E ''next'') \<longrightarrow>
            \<not> isValidVersion E ''next'' \<and> addonWithVersion E addonName ''next'' = addonName @ ''@next'')"
proof (intro conjI impI)
  show "filter is_install (fst (add E addon opts)) =
           [AddDependencies True
              [if isValidVersion E version then addonName @ ''@^'' @ version
               else addonName @ ''@'' @ version]]"
    using add_installs_resolved [OF assms] by (simp add: addonWithVersion_def)
  show "isValidVersion E version \<longleftrightarrow>
          truthy (SemVer_valid E version) \<or> (version \<noteq> [] \<and> list_all digit version)"
    by (rule isValidVersion_iff)
  show "isValidVersion E ''7''"
    by (simp add: isValidVersion_iff digit_def)
  show "isValidVersion E ''1.2.3''" if "truthy (SemVer_valid E ''1.2.3'')"
    using that by (simp add: isValidVersion_iff)
  have next_digits: "\<not> list_all digit ''next''"
    by (simp add: digit_def)
  show "\<not> isValidVersion E ''next''" if "\<not> truthy (SemVer_valid E ''next'')"
    using that next_digits by (simp add: isValidVersion_iff)
  show "addonWithVersion E addonName ''next'' = addonName @ ''@next''"
    if "\<not> truthy (SemVer_valid E ''next'')"
    using that next_digits by (simp add: addonWithVersion_def isValidVersion_iff)
qed

lemma getVersionSpecifier_foo_next: "getVersionSpecifier ''foo@next'' = (''foo'', Some ''next'')"
  by code_simp

lemma example_checkInstalled_foo:
  "checkInstalled ''foo'' (JObj [(''addons'', JArr [JStr ''@storybook/addon-essentials''])]) = Inr False"
  by code_simp

theorem installed_spec_format_witness:
  "filter is_install (fst (add example_project ''foo@next'' example_options)) =
     [AddDependencies True [''foo@next'']] \<and>
   \<not> isValidVersion example_project ''next'' \<and>
   isValidVersion example_project ''7'' \<and>
   isValidVersion example_project ''1.2.3'' \<and>
   addonWithVersion example_project ''foo'' ''next'' = ''foo@next''"
proof -
  have resolved: "resolveVersion example_project
      (getPackageManager example_project (cli_packageManager example_options)) ''foo''
      (Some ''next'') (Some ''7.0.1'') = Inr ''next''"
    by (simp add: resolveVersion_input)
  have valid: "truthy (SemVer_valid example_project ''1.2.3'')"
    "\<not> truthy (SemVer_valid example_project ''next'')"
    by (simp_all add: example_project_def example_valid_def)
  from installed_spec_format [OF getVersionSpecifier_foo_next example_retrievePackageJson
      example_getStorybookInfo _ example_resolveConfigDir example_requireMain
      example_checkInstalled_foo example_readConfig example_getCoercedStorybookVersion resolved]
  show ?thesis
    using valid by (simp add: digit_def)
qed

lemma entry_matches_scannable:
  "scannable entry \<Longrightarrow> entry_matches addonName entry = Inr (names_addon addonName entry)"
  by (cases entry) (auto simp: entry_matches_def split: option.splits jsval.splits)

lemma names_addon_truthy:
  assumes "names_addon addonName entry" and "addonName \<noteq> []"
  shows "to_boolean entry"
proof (cases entry)
  case (JStr s)
  with assms have "length addonName \<le> length s"
    by (simp add: endsWith_def)
  with assms(2) have "s \<noteq> []"
    by auto
  with JStr show ?thesis by simp
qed (use assms in simp_all)

lemma find_entry_scannable:
  assumes "\<forall>entry\<in>set entries. scannable entry"
    and "\<exists>entry\<in>set entries. names_addon addonName entry"
  shows "\<exists>entry. find_entry addonName entries = Inr entry \<and> names_addon addonName entry"
  using assms
proof (induction entries)
  case Nil
  then show ?case by simp
next
  case (Cons entry entries)
  then have m: "entry_matches addonName entry = Inr (names_addon addonName entry)"
    by (simp add: entry_matches_scannable)
  show ?case
  proof (cases "names_addon addonName entry")
    case True
    with m show ?thesis by simp
  next
    case False
    with m Cons show ?thesis by simp
  qed
qed

lemma find_entry_none:
  assumes "\<forall>entry\<in>set entries. entry_matches addonName entry = Inr False"
  shows "find_entry addonName entries = Inr Undefined"
  using assms by (induction entries) simp_all

lemma checkInstalled_present:
  assumes "get_prop main ''addons'' = Inr (JArr entries)"
    and "\<forall>entry\<in>set entries. scannable entry"
    and "\<exists>entry\<in>set entries. names_addon addonName entry"
    and "addonName \<noteq> []"
  shows "checkInstalled addonName main = Inr True"
proof -
  from find_entry_scannable [OF assms(2,3)] obtain entry
    where "find_entry addonName entries = Inr entry" and "names_addon addonName entry"
    by blast
  with assms(1,4) names_addon_truthy [of addonName entry] show ?thesis
    by (simp add: checkInstalled_def)
qed

text \<open>
  C6, as amended. When the main config is found and its \<open>addons\<close> is a list whose entries the
  scan passes without an exception (none is \<open>undefined\<close> or \<open>null\<close>, and no object has a \<open>name\<close>
  that is neither a string nor nullish), and one entry, a plain string or an object with a
  name, equals or ends with the name of the addon, then \<open>add\<close> of a specifier that is not
  empty logs the duplicate message and returns: no install call, no config edit or write.
\<close>

theorem add_duplicate_is_noop:
  assumes "getVersionSpecifier addon = (addonName, inputVersion)"
    and "addon \<noteq> []"
    and "retrievePackageJson (getPackageManager E (cli_packageManager opts)) = Inr packageJson"
    and "getStorybookInfo E packageJson (cli_configDir opts) = Inr (Some mainConfig, inferredConfigDir)"
    and "mainConfig \<noteq> []"
    and "resolveConfigDir (cli_configDir opts) inferredConfigDir = Some configDir"
    and "requireMain E configDir = Inr main"
    and "get_prop main ''addons'' = Inr (JArr entries)"
    and "\<forall>entry\<in>set entries. scannable entry"
    and "\<exists>entry\<in>set entries. names_addon addonName entry"
  shows "add E addon opts = ([Log LError (AlreadyPresent addonName mainConfig)], Returned) \<and>
         filter is_install (fst (add E addon opts)) = [] \<and>
         filter is_config_write (fst (add E addon opts)) = []"
proof -
  have "addonName \<noteq> []"
    using getVersionSpecifier_name_nonempty [OF assms(2)] assms(1) by simp
  with assms(8,9,10) have "checkInstalled addonName main = Inr True"
    by (rule checkInstalled_present)
  with assms(1,3-7)
  have "add E addon opts = ([Log LError (AlreadyPresent addonName mainConfig)], Returned)"
    by (rule add_duplicate)
  then show ?thesis by simp
qed

lemma getVersionSpecifier_essentials:
  "getVersionSpecifier ''addon-essentials'' = (''addon-essentials'', None)"
  by code_simp

theorem add_duplicate_is_noop_witness:
  "add example_project ''addon-essentials'' example_options =
     ([Log LError (AlreadyPresent ''addon-essentials'' ''.storybook/main.ts'')], Returned) \<and>
   filter is_install (fst (add example_project ''addon-essentials'' example_options)) = [] \<and>
   filter is_config_write (fst (add example_project ''addon-essentials'' example_options)) = []"
proof -
  have addons: "get_prop (JObj [(''addons'', JArr [JStr ''@storybook/addon-essentials''])]) ''addons'' =
      Inr (JArr [JStr ''@storybook/addon-essentials''])"
    by simp
  have scan: "\<forall>entry\<in>set [JStr ''@storybook/addon-essentials'']. scannable entry"
    by simp
  have found: "\<exists>entry\<in>set [JStr ''@storybook/addon-essentials'']. names_addon ''addon-essentials'' entry"
    by (simp add: endsWith_def)
  from add_duplicate_is_noop [OF getVersionSpecifier_essentials _ example_retrievePackageJson
      example_getStorybookInfo _ example_resolveConfigDir example_requireMain addons scan found]
  show ?thesis by simp
qed

text \<open>
  C6 as stated fails on a main config that has the addon after a \<open>null\<close> entry: the scan
  throws a \<open>TypeError\<close> at the \<open>null\<close>. It also fails for the empty specifier on a config
  that lists the empty string: the entry found is falsy, and \<open>add\<close> goes on to install.
\<close>

theorem add_duplicate_after_null_counterexample:
  "add (example_project\<lparr>serverRequire :=
          \<lambda>file. Inr (JObj [(''addons'', JArr [Null, JStr ''@storybook/addon-docs''])])\<rparr>)
     ''@storybook/addon-docs'' example_options = ([], Threw TypeError) \<and>
   getVersionSpecifier [] = ([], None) \<and>
   checkInstalled [] (JObj [(''addons'', JArr [JStr []])]) = Inr False"
  by code_simp

text \<open>
  C10. For a main config object with no \<open>addons\<close> field, and for one whose \<open>addons\<close> is a
  list of objects that have no \<open>name\<close>, \<open>checkInstalled\<close> returns false and does not throw.
  So it does for every list of entries that the scan can read and that do not name the addon.
\<close>

theorem checkInstalled_malformed:
  "(map_of fs ''addons'' = None \<longrightarrow> checkInstalled addonName (JObj fs) = Inr False) \<and>
   (map_of fs ''addons'' = Some (JArr entries) \<and>
    (\<forall>entry\<in>set entries. \<exists>gs. entry = JObj gs \<and> map_of gs ''name'' = None) \<longrightarrow>
      checkInstalled addonName (JObj fs) = Inr False) \<and>
   (map_of fs ''addons'' = Some (JArr entries) \<and>
    (\<forall>entry\<in>set entries. scannable entry \<and> \<not> names_addon addonName entry) \<longrightarrow>
      checkInstalled addonName (JObj fs) = Inr False)"
proof (intro conjI impI)
  assume "map_of fs ''addons'' = None"
  then show "checkInstalled addonName (JObj fs) = Inr False"
    by (simp add: checkInstalled_def)
next
  assume a: "map_of fs ''addons'' = Some (JArr entries) \<and>
    (\<forall>entry\<in>set entries. \<exists>gs. entry = JObj gs \<and> map_of gs ''name'' = None)"
  then have "\<forall>entry\<in>set entries. entry_matches addonName entry = Inr False"
    by (auto simp: entry_matches_def)
  then have "find_entry addonName entries = Inr Undefined"
    by (rule find_entry_none)
  with a show "checkInstalled addonName (JObj fs) = Inr False"
    by (simp add: checkInstalled_def)
next
  assume a: "map_of fs ''addons'' = Some (JArr entries) \<and>
    (\<forall>entry\<in>set entries. scannable entry \<and> \<not> names_addon addonName entry)"
  then have "\<forall>entry\<in>set entries. entry_matches addonName entry = Inr False"
    by (simp add: entry_matches_scannable)
  then have "find_entry addonName entries = Inr Undefined"
    by (rule find_entry_none)
  with a show "checkInstalled addonName (JObj fs) = Inr False"
    by (simp add: checkInstalled_def)
qed

theorem checkInstalled_malformed_witness:
  "checkInstalled ''@storybook/addon-docs'' (JObj [(''framework'', JStr ''@storybook/vue3-vite'')]) =
     Inr False \<and>
   checkInstalled ''@storybook/addon-docs''
     (JObj [(''addons'', JArr [JObj [(''options'', JObj [])], JObj []])]) = Inr False \<and>
   checkInstalled ''@storybook/addon-docs''
     (JObj [(''addons'', JArr [JBool False, JStr ''@storybook/addon-links''])]) = Inr False"
  using checkInstalled_malformed
      [of "[(''framework'', JStr ''@storybook/vue3-vite'')]" "''@storybook/addon-docs''" "[]"]
    checkInstalled_malformed
      [of "[(''addons'', JArr [JObj [(''options'', JObj [])], JObj []])]"
        "''@storybook/addon-docs''" "[JObj [(''options'', JObj [])], JObj []]"]
    checkInstalled_malformed
      [of "[(''addons'', JArr [JBool False, JStr ''@storybook/addon-links''])]"
        "''@storybook/addon-docs''" "[JBool False, JStr ''@storybook/addon-links'']"]
  by (simp add: endsWith_def)

lemma install_order:
  "\<forall>e\<in>set (takeWhile (\<lambda>e. \<not> is_install e)
       (fst (install E pm addon addonName inputVersion mainConfig configDir skip))).
     \<not> is_config_write e"
  by (auto simp: install_def split: sum.splits option.splits)

lemma add_run_cases:
  assumes "\<And>e. P ([], Threw e)"
    and "P ([Log LError UnableToFindMain], Returned)"
    and "\<And>a m. P ([Log LError (AlreadyPresent a m)], Returned)"
    and "\<And>a v m c. P (install E (getPackageManager E (cli_packageManager opts)) addon a v m c
           (cli_skipPostinstall opts))"
  shows "P (add E addon opts)"
  by (simp add: add_def Let_def assms split: prod.split sum.split option.split bool.split)

lemma add_order:
  "\<forall>e\<in>set (takeWhile (\<lambda>e. \<not> is_install e) (fst (add E addon opts))). \<not> is_config_write e"
  by (rule add_run_cases) (simp_all add: install_order)

lemma before_first:
  assumes "\<forall>e\<in>set (takeWhile (\<lambda>e. \<not> Q e) xs). \<not> P e"
    and "xs = pre @ e # post" and "P e" and "\<And>e. P e \<Longrightarrow> \<not> Q e"
  shows "\<exists>i\<in>set pre. Q i"
proof (rule ccontr)
  assume "\<not> (\<exists>i\<in>set pre. Q i)"
  then have "takeWhile (\<lambda>e. \<not> Q e) xs = pre @ takeWhile (\<lambda>e. \<not> Q e) (e # post)"
    using assms(2) by (simp add: takeWhile_append2)
  with assms(3,4) have "e \<in> set (takeWhile (\<lambda>e. \<not> Q e) xs)"
    by simp
  with assms(1,3) show False by blast
qed

lemma config_write_not_install: "is_config_write e \<Longrightarrow> \<not> is_install e"
  by (cases e) simp_all

lemma install_failed:
  assumes "AddDependencies True specs \<in> set (fst (install E pm addon addonName inputVersion mainConfig configDir skip))"
    and "addDependencies pm True specs = Some x"
  shows "filter is_config_write (fst (install E pm addon addonName inputVersion mainConfig configDir skip)) = [] \<and>
         snd (install E pm addon addonName inputVersion mainConfig configDir skip) = Threw (External x)"
  using assms by (auto simp: install_def split: sum.splits option.splits if_splits)

lemma add_failed:
  "AddDependencies True specs \<in> set (fst (add E addon opts)) \<and>
   addDependencies (getPackageManager E (cli_packageManager opts)) True specs = Some x \<longrightarrow>
   filter is_config_write (fst (add E addon opts)) = [] \<and>
   snd (add E addon opts) = Threw (External x)"
  by (rule add_run_cases) (use install_failed in auto)

text \<open>
  C7. In every run of \<open>add\<close>, a config edit or write comes after an install call. When the
  install call that \<open>add\<close> makes fails, the run has no config edit and no write, and ends
  with the exception of the install.
\<close>

theorem install_precedes_config_write:
  "(\<forall>pre e post. fst (add E addon opts) = pre @ e # post \<and> is_config_write e \<longrightarrow>
      (\<exists>i\<in>set pre. is_install i)) \<and>
   (\<forall>specs x. AddDependencies True specs \<in> set (fst (add E addon opts)) \<and>
      addDependencies (getPackageManager E (cli_packageManager opts)) True specs = Some x \<longrightarrow>
      filter is_config_write (fst (add E addon opts)) = [] \<and>
      snd (add E addon opts) = Threw (External x))"
proof (intro conjI allI impI)
  fix pre e post
  assume "fst (add E addon opts) = pre @ e # post \<and> is_config_write e"
  then show "\<exists>i\<in>set pre. is_install i"
    using before_first [OF add_order, of E addon opts pre e post] config_write_not_install
    by blast
next
  fix specs x
  assume "AddDependencies True specs \<in> set (fst (add E addon opts)) \<and>
      addDependencies (getPackageManager E (cli_packageManager opts)) True specs = Some x"
  then show "filter is_config_write (fst (add E addon opts)) = []"
    and "snd (add E addon opts) = Threw (External x)"
    using add_failed [of specs E addon opts x] by simp_all
qed


lemma example_failing_run:
  "add (example_project\<lparr>getPackageManager :=
          \<lambda>force. example_pm\<lparr>addDependencies := \<lambda>dev specs. Some ''ENETWORK''\<rparr>\<rparr>)
     ''@storybook/addon-docs@7.0.1'' example_options =
     ([Log LLog (Verifying ''@storybook/addon-docs''),
       Log LLog (Installing ''@storybook/addon-docs@^7.0.1''),
       AddDependencies True [''@storybook/addon-docs@^7.0.1'']],
      Threw (External ''ENETWORK''))"
  by code_simp

theorem install_precedes_config_write_witness:
  "(\<exists>i\<in>set [Log LLog (Verifying ''@storybook/addon-docs''),
               Log LLog (Installing ''@storybook/addon-docs@^7.0.1''),
               AddDependencies True [''@storybook/addon-docs@^7.0.1''],
               Log LLog (Adding ''@storybook/addon-docs@7.0.1'' ''.storybook/main.ts'')].
      is_install i) \<and>
   filter is_config_write
     (fst (add (example_project\<lparr>getPackageManager :=
                  \<lambda>force. example_pm\<lparr>addDependencies := \<lambda>dev specs. Some ''ENETWORK''\<rparr>\<rparr>)
             ''@storybook/addon-docs@7.0.1'' example_options)) = [] \<and>
   snd (add (example_project\<lparr>getPackageManager :=
               \<lambda>force. example_pm\<lparr>addDependencies := \<lambda>dev specs. Some ''ENETWORK''\<rparr>\<rparr>)
          ''@storybook/addon-docs@7.0.1'' example_options) = Threw (External ''ENETWORK'')"
proof -
  let ?failing = "example_project\<lparr>getPackageManager :=
      \<lambda>force. example_pm\<lparr>addDependencies := \<lambda>dev specs. Some ''ENETWORK''\<rparr>\<rparr>"
  have ordered: "\<exists>i\<in>set [Log LLog (Verifying ''@storybook/addon-docs''),
               Log LLog (Installing ''@storybook/addon-docs@^7.0.1''),
               AddDependencies True [''@storybook/addon-docs@^7.0.1''],
               Log LLog (Adding ''@storybook/addon-docs@7.0.1'' ''.storybook/main.ts'')].
      is_install i"
    using install_precedes_config_write
      [of example_project "''@storybook/addon-docs@7.0.1''" example_options, THEN conjunct1,
        rule_format,
        of "[Log LLog (Verifying ''@storybook/addon-docs''),
             Log LLog (Installing ''@storybook/addon-docs@^7.0.1''),
             AddDependencies True [''@storybook/addon-docs@^7.0.1''],
             Log LLog (Adding ''@storybook/addon-docs@7.0.1'' ''.storybook/main.ts'')]"
           "AppendValueToArray [''addons''] ''@storybook/addon-docs''"
           "[WriteConfig \<lparr>fileName = ''.storybook/main.ts'',
                edits = [([''addons''], ''@storybook/addon-docs'')]\<rparr>,
             PostinstallAddon ''@storybook/addon-docs'' ''npm'' ''.storybook'']"]
    unfolding example_docs_run by simp
  have failed: "addDependencies (getPackageManager ?failing (cli_packageManager example_options)) True
      [''@storybook/addon-docs@^7.0.1''] = Some ''ENETWORK''"
    by (simp add: example_project_def)
  have "filter is_config_write (fst (add ?failing ''@storybook/addon-docs@7.0.1'' example_options)) = [] \<and>
      snd (add ?failing ''@storybook/addon-docs@7.0.1'' example_options) = Threw (External ''ENETWORK'')"
    using install_precedes_config_write
      [of ?failing "''@storybook/addon-docs@7.0.1''" example_options, THEN conjunct2, rule_format,
        of "[''@storybook/addon-docs@^7.0.1'']" "''ENETWORK''"] failed
    unfolding example_failing_run by simp
  with ordered show ?thesis by simp
qed

text \<open>
  C9. In a run that reaches the resolution of the version, the warning is logged exactly when
  the addon is a core addon and the resolved version is not the detected Storybook version.
  Logged or not, the install call is made; when it succeeds the edit and the write are made;
  when they succeed the post-install call is made for a core addon unless it is skipped; and
  when every call succeeds \<open>add\<close> returns.
\<close>

theorem version_warning_is_not_fatal:
  assumes "getVersionSpecifier addon = (addonName, inputVersion)"
    and "retrievePackageJson (getPackageManager E (cli_packageManager opts)) = Inr packageJson"
    and "getStorybookInfo E packageJson (cli_configDir opts) = Inr (Some mainConfig, inferredConfigDir)"
    and "mainConfig \<noteq> []"
    and "resolveConfigDir (cli_configDir opts) inferredConfigDir = Some configDir"
    and "requireMain E configDir = Inr rawMain"
    and "checkInstalled addonName rawMain = Inr False"
    and "readConfig E mainConfig = Inr main"
    and "getCoercedStorybookVersion E (getPackageManager E (cli_packageManager opts)) =
           Inr storybookVersion"
    and "resolveVersion E (getPackageManager E (cli_packageManager opts)) addonName inputVersion
           storybookVersion = Inr version"
  shows "(Log LWarn (VersionMismatch addonName) \<in> set (fst (add E addon opts)) \<longleftrightarrow>
            isCoreAddon E addonName \<and> Some version \<noteq> storybookVersion) \<and>
         AddDependencies True [addonWithVersion E addonName version] \<in> set (fst (add E addon opts)) \<and>
         (addDependencies (getPackageManager E (cli_packageManager opts)) True
             [addonWithVersion E addonName version] = None \<longrightarrow>
            AppendValueToArray [''addons''] addonName \<in> set (fst (add E addon opts)) \<and>
            WriteConfig (appendValueToArray [''addons''] addonName main) \<in> set (fst (add E addon opts))) \<and>
         (addDependencies (getPackageManager E (cli_packageManager opts)) True
             [addonWithVersion E addonName version] = None \<and>
          writeConfig E (appendValueToArray [''addons''] addonName main) = None \<and>
          \<not> cli_skipPostinstall opts \<and> isCoreAddon E addonName \<longrightarrow>
            PostinstallAddon addonName (pm_type (getPackageManager E (cli_packageManager opts)))
              configDir \<in> set (fst (add E addon opts))) \<and>
         (addDependencies (getPackageManager E (cli_packageManager opts)) True
             [addonWithVersion E addonName version] = None \<and>
          writeConfig E (appendValueToArray [''addons''] addonName main) = None \<and>
          (\<not> cli_skipPostinstall opts \<and> isCoreAddon E addonName \<longrightarrow>
             postinstallAddon E addonName (pm_type (getPackageManager E (cli_packageManager opts)))
               configDir = None) \<longrightarrow>
            snd (add E addon opts) = Returned)"
  unfolding add_reaches_install [OF assms(1-7)] install_resolved [OF assms(8-10)]
  by (auto split: option.splits)

lemma getVersionSpecifier_docs_700:
  "getVersionSpecifier ''@storybook/addon-docs@7.0.0'' = (''@storybook/addon-docs'', Some ''7.0.0'')"
  by code_simp

theorem version_warning_is_not_fatal_witness:
  "Log LWarn (VersionMismatch ''@storybook/addon-docs'') \<in>
     set (fst (add example_project ''@storybook/addon-docs@7.0.0'' example_options)) \<and>
   AddDependencies True [''@storybook/addon-docs@^7.0.0''] \<in>
     set (fst (add example_project ''@storybook/addon-docs@7.0.0'' example_options)) \<and>
   AppendValueToArray [''addons''] ''@storybook/addon-docs'' \<in>
     set (fst (add example_project ''@storybook/addon-docs@7.0.0'' example_options)) \<and>
   WriteConfig \<lparr>fileName = ''.storybook/main.ts'', edits = [([''addons''], ''@storybook/addon-docs'')]\<rparr> \<in>
     set (fst (add example_project ''@storybook/addon-docs@7.0.0'' example_options)) \<and>
   PostinstallAddon ''@storybook/addon-docs'' ''npm'' ''.storybook'' \<in>
     set (fst (add example_project ''@storybook/addon-docs@7.0.0'' example_options)) \<and>
   snd (add example_project ''@storybook/addon-docs@7.0.0'' example_options) = Returned"
proof -
  have resolved: "resolveVersion example_project
      (getPackageManager example_project (cli_packageManager example_options))
      ''@storybook/addon-docs'' (Some ''7.0.0'') (Some ''7.0.1'') = Inr ''7.0.0''"
    by (simp add: resolveVersion_input)
  have spec: "addonWithVersion example_project ''@storybook/addon-docs'' ''7.0.0'' =
      ''@storybook/addon-docs@^7.0.0''"
    by (simp add: addonWithVersion_def isValidVersion_iff example_project_def example_valid_def)
  have calls: "addDependencies (getPackageManager example_project (cli_packageManager example_options))
      True [''@storybook/addon-docs@^7.0.0''] = None"
    "writeConfig example_project
      (appendValueToArray [''addons''] ''@storybook/addon-docs''
        \<lparr>fileName = ''.storybook/main.ts'', edits = []\<rparr>) = None"
    "postinstallAddon example_project ''@storybook/addon-docs''
      (pm_type (getPackageManager example_project (cli_packageManager example_options)))
      ''.storybook'' = None"
    "\<not> cli_skipPostinstall example_options"
    "pm_type (getPackageManager example_project (cli_packageManager example_options)) = ''npm''"
    by (simp_all add: example_project_def example_pm_def example_options_def)
  from version_warning_is_not_fatal [OF getVersionSpecifier_docs_700 example_retrievePackageJson
      example_getStorybookInfo _ example_resolveConfigDir example_requireMain
      example_checkInstalled_docs example_readConfig example_getCoercedStorybookVersion resolved]
  show ?thesis
    using calls example_isCoreAddon_docs unfolding spec by (simp add: appendValueToArray_def)
qed

section \<open>The claim about viteFinal\<close>

lemma merge_fields_Nil: "merge_fields defaults [] = defaults"
  by (induction defaults) (auto simp: merge_fields_def)

lemma map_of_overridden:
  "map_of (map (\<lambda>(k, v). (k, case map_of overrides k of Some w \<Rightarrow> w | None \<Rightarrow> v)) defaults) k =
     (case map_of defaults k of
        None \<Rightarrow> None
      | Some v \<Rightarrow> Some (case map_of overrides k of Some w \<Rightarrow> w | None \<Rightarrow> v))"
  by (induction defaults) (auto split: option.splits)

lemma map_of_added:
  "map_of (filter (\<lambda>(k, w). k \<notin> fst ` set defaults) overrides) k =
     (if k \<in> fst ` set defaults then None else map_of overrides k)"
  by (induction overrides) (force simp: image_iff)+

lemma map_of_merge_fields:
  "map_of (merge_fields defaults overrides) k =
     (case map_of overrides k of Some w \<Rightarrow> Some w | None \<Rightarrow> map_of defaults k)"
proof (cases "map_of defaults k")
  case None
  then have "k \<notin> fst ` set defaults"
    by (simp add: map_of_eq_None_iff)
  with None show ?thesis
    by (simp add: merge_fields_def map_add_def map_of_overridden map_of_added split: option.splits)
next
  case (Some v)
  then have "k \<in> fst ` set defaults"
    by (metis map_of_eq_None_iff option.distinct(1))
  with Some show ?thesis
    by (simp add: merge_fields_def map_add_def map_of_overridden map_of_added split: option.splits)
qed

lemma merge_fields_keys:
  "take (length defaults) (map fst (merge_fields defaults overrides)) = map fst defaults"
  by (simp add: merge_fields_def comp_def case_prod_unfold)

lemma hasVitePlugins_iff:
  "hasVitePlugins ps names \<longleftrightarrow> (\<exists>p\<in>set ps. plugin_name p \<in> set names)"
  by (simp add: hasVitePlugins_def list_ex_iff)

text \<open>
  C8. The plugin list of the result is the caller's list, then the default Vue plugin when no
  plugin of the caller's list is named \<open>vite:vue\<close>, then the component-metadata plugin. The
  other fields of the config and of \<open>resolve\<close> are the caller's, the caller's aliases keep
  their places, every alias but \<open>vue\<close> has the caller's target, and \<open>vue\<close> has the
  target \<open>vue/dist/vue.esm-bundler.js\<close>.
\<close>

theorem viteFinal_extends_config:
  "plugins (viteFinal vue vueComponentMeta config) =
     Some ((case plugins config of None \<Rightarrow> [] | Some ps \<Rightarrow> ps) @
           (if \<exists>p\<in>set (case plugins config of None \<Rightarrow> [] | Some ps \<Rightarrow> ps).
                 plugin_name p = ''vite:vue''
            then [] else [vue]) @
           [vueComponentMeta]) \<and>
   other_fields (viteFinal vue vueComponentMeta config) = other_fields config \<and>
   resolve_rest (viteFinal vue vueComponentMeta config) = resolve_rest config \<and>
   map fst (resolve_alias config) =
     take (length (resolve_alias config))
       (map fst (resolve_alias (viteFinal vue vueComponentMeta config))) \<and>
   (\<forall>k. k \<noteq> ''vue'' \<longrightarrow>
      map_of (resolve_alias (viteFinal vue vueComponentMeta config)) k =
      map_of (resolve_alias config) k) \<and>
   map_of (resolve_alias (viteFinal vue vueComponentMeta config)) ''vue'' =
     Some ''vue/dist/vue.esm-bundler.js''"
proof (intro conjI allI impI)
  show "plugins (viteFinal vue vueComponentMeta config) =
     Some ((case plugins config of None \<Rightarrow> [] | Some ps \<Rightarrow> ps) @
           (if \<exists>p\<in>set (case plugins config of None \<Rightarrow> [] | Some ps \<Rightarrow> ps).
                 plugin_name p = ''vite:vue''
            then [] else [vue]) @
           [vueComponentMeta])"
    by (simp add: viteFinal_def Let_def mergeConfig_def hasVitePlugins_iff split: option.splits)
  show "other_fields (viteFinal vue vueComponentMeta config) = other_fields config"
    by (simp add: viteFinal_def Let_def mergeConfig_def merge_fields_Nil)
  show "resolve_rest (viteFinal vue vueComponentMeta config) = resolve_rest config"
    by (simp add: viteFinal_def Let_def mergeConfig_def merge_fields_Nil)
  show "map fst (resolve_alias config) =
     take (length (resolve_alias config))
       (map fst (resolve_alias (viteFinal vue vueComponentMeta config)))"
    by (simp add: viteFinal_def Let_def mergeConfig_def merge_fields_keys)
  show "map_of (resolve_alias (viteFinal vue vueComponentMeta config)) k =
      map_of (resolve_alias config) k" if "k \<noteq> ''vue''" for k
    using that by (simp add: viteFinal_def Let_def mergeConfig_def map_of_merge_fields)
  show "map_of (resolve_alias (viteFinal vue vueComponentMeta config)) ''vue'' =
     Some ''vue/dist/vue.esm-bundler.js''"
    by (simp add: viteFinal_def Let_def mergeConfig_def map_of_merge_fields)
qed

theorem viteFinal_extends_config_witness:
  "plugins (viteFinal (Plugin ''vite:vue'') (Plugin ''storybook:vue-component-meta-plugin'')
      \<lparr>plugins = Some [Plugin ''vite:vue''],
       resolve_alias = [(''@'', ''/src''), (''vue'', ''vue/dist/vue.cjs.js'')],
       resolve_rest = [], other_fields = [(''base'', JStr ''/'')]\<rparr>) =
     Some [Plugin ''vite:vue'', Plugin ''storybook:vue-component-meta-plugin''] \<and>
   map_of (resolve_alias (viteFinal (Plugin ''vite:vue'') (Plugin ''storybook:vue-component-meta-plugin'')
      \<lparr>plugins = Some [Plugin ''vite:vue''],
       resolve_alias = [(''@'', ''/src''), (''vue'', ''vue/dist/vue.cjs.js'')],
       resolve_rest = [], other_fields = [(''base'', JStr ''/'')]\<rparr>)) ''@'' = Some ''/src'' \<and>
   map_of (resolve_alias (viteFinal (Plugin ''vite:vue'') (Plugin ''storybook:vue-component-meta-plugin'')
      \<lparr>plugins = Some [Plugin ''vite:vue''],
       resolve_alias = [(''@'', ''/src''), (''vue'', ''vue/dist/vue.cjs.js'')],
       resolve_rest = [], other_fields = [(''base'', JStr ''/'')]\<rparr>)) ''vue'' =
     Some ''vue/dist/vue.esm-bundler.js''"
  using viteFinal_extends_config
    [of "Plugin ''vite:vue''" "Plugin ''storybook:vue-component-meta-plugin''"
      "\<lparr>plugins = Some [Plugin ''vite:vue''],
        resolve_alias = [(''@'', ''/src''), (''vue'', ''vue/dist/vue.cjs.js'')],
        resolve_rest = [], other_fields = [(''base'', JStr ''/'')]\<rparr>"]
  by simp

end
